theory Spec2Isabelle
  imports Complex_Main "HOL-Library.Sublist"
begin

section \<open>JavaScript values\<close>

text \<open>
  A field of type \<open>number\<close> that the code tests with \<open>!x\<close> may be absent at run time.
  A finite number is the rational it denotes (so \<open>1.5\<close> is \<open>Num (3/2)\<close>); \<open>undefined\<close>
  and \<open>NaN\<close> are values of their own, and the infinities are outside the model. The
  comparisons and the subtraction below follow the language: \<open>undefined\<close> converts to
  \<open>NaN\<close>, every comparison with \<open>NaN\<close> is false, \<open>NaN === NaN\<close> is false, and the
  difference of two numbers is rounded to the nearest double.
\<close>

datatype jsnumber = Undefined | NaN | Num rat

fun truthy :: "jsnumber \<Rightarrow> bool" where
  "truthy Undefined = False"
| "truthy NaN = False"
| "truthy (Num q) = (q \<noteq> 0)"

fun js_lt :: "jsnumber \<Rightarrow> jsnumber \<Rightarrow> bool" where
  "js_lt (Num a) (Num b) = (a < b)"
| "js_lt _ _ = False"

fun js_gt :: "jsnumber \<Rightarrow> jsnumber \<Rightarrow> bool" where
  "js_gt (Num a) (Num b) = (a > b)"
| "js_gt _ _ = False"

text \<open>
  Rounding to double precision, to nearest with ties to the even significand. For
  \<open>q \<noteq> 0\<close> with \<open>2 ^ e \<le> |q| < 2 ^ (e + 1)\<close> the doubles around \<open>q\<close> are the multiples
  of \<open>2 ^ (e - 52)\<close>, and of \<open>2 ^ (- 1074)\<close> in the subnormal range. \<open>bitLength k\<close> is the
  number of binary digits of \<open>k\<close>, so \<open>floorLog2 x\<close> is that \<open>e\<close> for a positive \<open>x\<close>.
  Overflow to an infinity is not modelled; a validated step number minus 1 cannot
  overflow.
\<close>

function bitLength :: "int \<Rightarrow> nat" where
  "bitLength k = (if k \<le> 0 then 0 else Suc (bitLength (k div 2)))"
  by pat_completeness auto
termination
  by (relation "measure nat") auto

definition floorLog2 :: "rat \<Rightarrow> int" where
  "floorLog2 x =
     (if 1 \<le> x then int (bitLength \<lfloor>x\<rfloor>) - 1
      else - int (bitLength (\<lceil>1 / x\<rceil> - 1)))"

definition roundHalfEven :: "rat \<Rightarrow> int" where
  "roundHalfEven m =
     (let f = \<lfloor>m\<rfloor>; d = m - of_int f
      in if d < 1 / 2 then f else if 1 / 2 < d then f + 1 else if even f then f else f + 1)"

definition pow2 :: "int \<Rightarrow> rat" where
  "pow2 p = (if 0 \<le> p then 2 ^ nat p else 1 / 2 ^ nat (- p))"

definition roundDouble :: "rat \<Rightarrow> rat" where
  "roundDouble q =
     (if q = 0 then 0
      else let p = max (floorLog2 \<bar>q\<bar> - 52) (- 1074)
           in sgn q * of_int (roundHalfEven (\<bar>q\<bar> / pow2 p)) * pow2 p)"

fun js_minus :: "jsnumber \<Rightarrow> jsnumber \<Rightarrow> jsnumber" where
  "js_minus (Num a) (Num b) = Num (roundDouble (a - b))"
| "js_minus _ _ = NaN"

fun js_strict_eq :: "jsnumber \<Rightarrow> jsnumber \<Rightarrow> bool" where
  "js_strict_eq (Num a) (Num b) = (a = b)"
| "js_strict_eq Undefined Undefined = True"
| "js_strict_eq _ _ = False"

text \<open>An optional string is truthy when it is present and not empty.\<close>

fun truthy_str :: "string option \<Rightarrow> bool" where
  "truthy_str None = False"
| "truthy_str (Some s) = (s \<noteq> [])"

text \<open>\<open>s.includes(searchString)\<close>: \<open>searchString\<close> occurs in \<open>s\<close> as a contiguous run.\<close>

definition str_includes :: "string \<Rightarrow> string \<Rightarrow> bool" where
  "str_includes s searchString = sublist searchString s"

text \<open>
  A thrown value: an \<open>Error\<close> object (a \<open>TypeError\<close> is one) with its message, or any
  other value, kept as what \<open>String(error)\<close> gives for it.
\<close>

datatype thrown = Error string | NonError string

text \<open>
  The built-in functions of the language that the library calls on open-ended data
  are arguments of the model, gathered in one record:
  \<^item> \<open>stringify\<close> is \<open>JSON.stringify\<close> on the \<open>parameters\<close> of a tool call: the text, or
    the \<open>TypeError\<close> it throws (on a cyclic structure, on a \<open>BigInt\<close>);
  \<^item> \<open>stringifyResultThrows\<close> is \<open>JSON.stringify\<close> on the \<open>result\<close> payload of a tool
    result, called by the logger only: the value it throws, if it throws (its text is
    printed and not used otherwise);
  \<^item> \<open>numberToString\<close> is the text a template literal prints for a timeout.
  Nothing is assumed about them, so what is proved holds for the real ones.
\<close>

record 'p host =
  stringify :: "'p \<Rightarrow> thrown + string"
  stringifyResultThrows :: "string \<times> 'p \<Rightarrow> thrown option"
  numberToString :: "int \<Rightarrow> string"

section \<open>Data model\<close>

text \<open>
  The interfaces of the library, field by field. Optional fields are options (or
  \<open>Undefined\<close> for numbers); \<open>thought\<close> is one of them, since nothing checks that it
  is there. \<open>parameters\<close> is an open mapping in the source; its type is the parameter
  \<open>'p\<close>. The \<open>result\<close> payload of a tool result is the pair of \<open>message\<close> and
  \<open>parameters\<close> that the built-in executor produces. Timeouts and execution times are
  whole milliseconds. An input is a plain object whose fields can be assigned.
\<close>

record ToolError =
  type :: string
  message :: string
  recoveryStrategy :: "string option"

text \<open>The payloads that \<open>processStep\<close> returns, before \<open>JSON.stringify\<close> turns them
  into the text of the envelope. \<open>Object.keys(history.branches)\<close> is kept as the set of
  its elements.\<close>

record ErrorResponse =
  error :: ToolError
  status :: string

record ToolResultSummary =
  success :: bool
  executionTime :: int

record Statistics =
  totalSteps :: nat
  totalToolCalls :: nat
  successfulToolCalls :: nat
  failedToolCalls :: nat
  totalExecutionTime :: int

record StepResponse =
  stepNumber :: jsnumber
  totalSteps :: jsnumber
  nextStepNeeded :: "bool option"
  branches :: "string set"
  stepHistoryLength :: nat
  phase :: "string option"
  toolResult :: "ToolResultSummary option"

datatype payload = Response StepResponse | Failure ErrorResponse

record ProcessResult =
  content :: payload
  isError :: "bool option"

record ToolCallMetadata =
  timeout :: "int option"
  retryCount :: "int option"
  priority :: "string option"

record 'p ToolCallData =
  toolName :: string
  parameters :: 'p
  metadata :: "ToolCallMetadata option"

record 'p ToolResultData =
  toolName :: string
  success :: bool
  result :: "(string \<times> 'p) option"
  error :: "ToolError option"
  executionTime :: int
  timestamp :: string

record 'p ToolCallRecord =
  stepNumber :: jsnumber
  toolCall :: "'p ToolCallData"
  result :: "'p ToolResultData"

record 'p InterleavedStepData =
  thought :: "string option"
  stepNumber :: jsnumber
  totalSteps :: jsnumber
  nextStepNeeded :: "bool option"
  isRevision :: "bool option"
  revisesStep :: jsnumber
  branchFromStep :: jsnumber
  branchId :: "string option"
  needsMoreSteps :: "bool option"
  phase :: "string option"
  toolCall :: "'p ToolCallData option"
  toolResult :: "'p ToolResultData option"

record 'p StepHistory =
  steps :: "'p InterleavedStepData list"
  branches :: "(string \<times> 'p InterleavedStepData list) list"
  toolCalls :: "'p ToolCallRecord list"
  statistics :: Statistics

record ServerConfig =
  maxToolCalls :: "int option"
  defaultTimeout :: "int option"
  disableLogging :: "bool option"
  enableResultCache :: "bool option"
  testMode :: "bool option"

record ToolCallConfig =
  maxToolCalls :: int
  defaultTimeout :: int
  enableCache :: bool

section \<open>ToolCallManager\<close>

record 'p ToolCallManager =
  maxToolCalls :: int
  defaultTimeout :: int
  enableCache :: bool
  callCount :: nat
  resultCache :: "string \<rightharpoonup> 'p ToolResultData"
  mockResults :: "(string \<rightharpoonup> 'p ToolResultData) option"

definition new_ToolCallManager :: "ToolCallConfig \<Rightarrow> 'p ToolCallManager" where
  "new_ToolCallManager config =
     \<lparr>maxToolCalls = ToolCallConfig.maxToolCalls config,
      defaultTimeout = ToolCallConfig.defaultTimeout config,
      enableCache = ToolCallConfig.enableCache config,
      callCount = 0,
      resultCache = Map.empty,
      mockResults = None\<rparr>"

text \<open>
  What the world contributes to one execution: which promise of the race settles
  first, the milliseconds elapsed since \<open>startTime\<close>, and the ISO time of completion.
  The built-in executor always resolves, so in the source the race ends with
  \<open>ExecutorResolves\<close> or \<open>TimeoutRejects\<close>; \<open>ExecutorRejects\<close> is the rejection any
  other executor could produce and that the \<open>catch\<close> block handles.
\<close>

datatype race_winner = ExecutorResolves | ExecutorRejects thrown | TimeoutRejects

record env =
  winner :: race_winner
  elapsed :: int
  isoNow :: string

text \<open>\<open>getCacheKey\<close> throws what \<open>JSON.stringify\<close> throws.\<close>

definition getCacheKey :: "'p host \<Rightarrow> 'p ToolCallData \<Rightarrow> thrown + string" where
  "getCacheKey js tc =
     (case stringify js (parameters tc) of
        Inl e \<Rightarrow> Inl e
      | Inr s \<Rightarrow> Inr (ToolCallData.toolName tc @ '':'' @ s))"

definition canExecuteToolCall :: "'p ToolCallManager \<Rightarrow> bool" where
  "canExecuteToolCall m = (int (callCount m) < maxToolCalls m)"

definition simulateToolExecution :: "'p ToolCallData \<Rightarrow> 'p ToolResultData" where
  "simulateToolExecution tc =
     \<lparr>toolName = ToolCallData.toolName tc,
      success = True,
      result = Some (''Mock result for '' @ ToolCallData.toolName tc, parameters tc),
      error = None,
      executionTime = 0,
      timestamp = ''''\<rparr>"

text \<open>The value the timeout promise rejects with.\<close>

definition createTimeoutPromise :: "'p host \<Rightarrow> int \<Rightarrow> thrown" where
  "createTimeoutPromise js timeout' =
     Error (''Tool execution timeout after '' @ numberToString js timeout' @ ''ms'')"

text \<open>\<open>tc.metadata?.timeout || this.defaultTimeout\<close>: an absent or zero timeout
  falls back to the default.\<close>

definition effectiveTimeout :: "'p ToolCallManager \<Rightarrow> 'p ToolCallData \<Rightarrow> int" where
  "effectiveTimeout m tc =
     (case metadata tc of
        None \<Rightarrow> defaultTimeout m
      | Some md \<Rightarrow>
          (case timeout md of
             None \<Rightarrow> defaultTimeout m
           | Some t \<Rightarrow> if t \<noteq> 0 then t else defaultTimeout m))"

definition promiseRace ::
  "'p host \<Rightarrow> race_winner \<Rightarrow> 'p ToolCallData \<Rightarrow> int \<Rightarrow> thrown + 'p ToolResultData" where
  "promiseRace js w tc timeout' =
     (case w of
        ExecutorResolves \<Rightarrow> Inr (simulateToolExecution tc)
      | ExecutorRejects e \<Rightarrow> Inl e
      | TimeoutRejects \<Rightarrow> Inl (createTimeoutPromise js timeout'))"

text \<open>The result object built in the \<open>catch\<close> block.\<close>

definition failureResult :: "'p ToolCallData \<Rightarrow> thrown \<Rightarrow> env \<Rightarrow> 'p ToolResultData" where
  "failureResult tc e ev =
     \<lparr>toolName = ToolCallData.toolName tc,
      success = False,
      result = None,
      error = Some
        \<lparr>type = (case e of
                   Error msg \<Rightarrow> if str_includes msg ''timeout'' then ''TimeoutError''
                                else ''ToolExecutionError''
                 | NonError _ \<Rightarrow> ''ToolExecutionError''),
         message = (case e of Error msg \<Rightarrow> msg | NonError s \<Rightarrow> s),
         recoveryStrategy = Some (case e of
                   Error msg \<Rightarrow> if str_includes msg ''timeout''
                                then ''Use simpler tool or increase timeout''
                                else ''Retry with adjusted parameters or use alternative tool''
                 | NonError _ \<Rightarrow> ''Retry with adjusted parameters or use alternative tool'')\<rparr>,
      executionTime = elapsed ev,
      timestamp = isoNow ev\<rparr>"

text \<open>
  The two lookups that come before an execution: the injected fixtures, when there
  are any, and the cache, when it is enabled. Each computes the key, and so throws
  what \<open>getCacheKey\<close> throws; without fixtures, or with the cache disabled, no key is
  computed.
\<close>

definition lookupMock ::
  "'p host \<Rightarrow> 'p ToolCallManager \<Rightarrow> 'p ToolCallData \<Rightarrow> thrown + 'p ToolResultData option" where
  "lookupMock js m tc =
     (case mockResults m of
        None \<Rightarrow> Inr None
      | Some mocks \<Rightarrow>
          (case getCacheKey js tc of
             Inl e \<Rightarrow> Inl e
           | Inr k \<Rightarrow> Inr (mocks k)))"

definition lookupCache ::
  "'p host \<Rightarrow> 'p ToolCallManager \<Rightarrow> 'p ToolCallData \<Rightarrow> thrown + 'p ToolResultData option" where
  "lookupCache js m tc =
     (if enableCache m then
        (case getCacheKey js tc of
           Inl e \<Rightarrow> Inl e
         | Inr k \<Rightarrow> Inr (resultCache m k))
      else Inr None)"

text \<open>
  \<open>executeToolCall\<close> returns \<open>Inl\<close> with the thrown value, or \<open>Inr\<close> with the result; in
  both cases with the manager as it is at that moment. The two lookups are outside
  the \<open>try\<close> block, so what they throw leaves the function, after the counter has been
  incremented. The key computed for storing the result is inside the \<open>try\<close> block: what
  it throws is caught and becomes a failure result.
\<close>

definition executeToolCall ::
  "'p host \<Rightarrow> 'p ToolCallManager \<Rightarrow> 'p ToolCallData \<Rightarrow> env \<Rightarrow>
     (thrown \<times> 'p ToolCallManager) + ('p ToolResultData \<times> 'p ToolCallManager)" where
  "executeToolCall js m tc ev =
     (if \<not> canExecuteToolCall m then Inl (Error ''Tool call limit reached'', m)
      else
        let m1 = m\<lparr>callCount := callCount m + 1\<rparr> in
        (case lookupMock js m1 tc of
           Inl e \<Rightarrow> Inl (e, m1)
         | Inr (Some mockResult) \<Rightarrow> Inr (mockResult, m1)
         | Inr None \<Rightarrow>
             (case lookupCache js m1 tc of
                Inl e \<Rightarrow> Inl (e, m1)
              | Inr (Some cached) \<Rightarrow> Inr (cached, m1)
              | Inr None \<Rightarrow>
                  (case promiseRace js (winner ev) tc (effectiveTimeout m1 tc) of
                     Inl e \<Rightarrow> Inr (failureResult tc e ev, m1)
                   | Inr r \<Rightarrow>
                       if enableCache m1 \<and> success r then
                         (case getCacheKey js tc of
                            Inl e \<Rightarrow> Inr (failureResult tc e ev, m1)
                          | Inr k \<Rightarrow>
                              Inr (r\<lparr>executionTime := elapsed ev, timestamp := isoNow ev\<rparr>,
                                   m1\<lparr>resultCache := (resultCache m1)(k \<mapsto> r)\<rparr>))
                       else Inr (r\<lparr>executionTime := elapsed ev, timestamp := isoNow ev\<rparr>, m1)))))"

definition ToolCallManager_reset :: "'p ToolCallManager \<Rightarrow> 'p ToolCallManager" where
  "ToolCallManager_reset m = m\<lparr>callCount := 0, resultCache := Map.empty\<rparr>"

definition ToolCallManager_injectMockResults ::
  "'p ToolCallManager \<Rightarrow> (string \<rightharpoonup> 'p ToolResultData) \<Rightarrow> 'p ToolCallManager" where
  "ToolCallManager_injectMockResults m mocks = m\<lparr>mockResults := Some mocks\<rparr>"

section \<open>StateManager\<close>

record 'p StateManager =
  steps :: "'p InterleavedStepData list"
  branches :: "(string \<times> 'p InterleavedStepData list) list"
  toolCalls :: "'p ToolCallRecord list"

definition new_StateManager :: "'p StateManager" where
  "new_StateManager = \<lparr>steps = [], branches = [], toolCalls = []\<rparr>"

text \<open>
  \<open>branches\<close> is a plain object; the model keeps its own properties in the order of
  their creation. A lookup of a key it does not own falls through to
  \<open>Object.prototype\<close>. For the names below the lookup gives a truthy value that has no
  \<open>push\<close>: the bucket is not created and the call of \<open>push\<close> throws a \<open>TypeError\<close>,
  after the step has been appended to \<open>steps\<close>.
\<close>

definition inheritedProperty :: "string \<Rightarrow> bool" where
  "inheritedProperty k =
     (k \<in> set [''constructor'', ''__defineGetter__'', ''__defineSetter__'', ''hasOwnProperty'',
               ''__lookupGetter__'', ''__lookupSetter__'', ''isPrototypeOf'',
               ''propertyIsEnumerable'', ''toString'', ''valueOf'', ''__proto__'',
               ''toLocaleString''])"

definition addStep ::
  "'p StateManager \<Rightarrow> 'p InterleavedStepData \<Rightarrow> (thrown \<times> 'p StateManager) + 'p StateManager" where
  "addStep sm step =
     (let sm1 = sm\<lparr>steps := steps sm @ [step]\<rparr> in
      case branchId step of
        None \<Rightarrow> Inr sm1
      | Some b \<Rightarrow>
          if truthy (branchFromStep step) \<and> b \<noteq> [] then
            (case map_of (branches sm1) b of
               Some bucket \<Rightarrow>
                 Inr (sm1\<lparr>branches :=
                        map (\<lambda>(k, v). if k = b then (k, v @ [step]) else (k, v)) (branches sm1)\<rparr>)
             | None \<Rightarrow>
                 if inheritedProperty b
                 then Inl (Error ''this.branches[step.branchId].push is not a function'', sm1)
                 else Inr (sm1\<lparr>branches := branches sm1 @ [(b, [step])]\<rparr>))
          else Inr sm1)"

definition addToolCall :: "'p StateManager \<Rightarrow> 'p ToolCallRecord \<Rightarrow> 'p StateManager" where
  "addToolCall sm record' = sm\<lparr>toolCalls := toolCalls sm @ [record']\<rparr>"

text \<open>The loop of \<open>calculateStatistics\<close>, with its three counters.\<close>

fun tally :: "'p ToolCallRecord list \<Rightarrow> nat \<times> nat \<times> int \<Rightarrow> nat \<times> nat \<times> int" where
  "tally [] acc = acc"
| "tally (r # rs) (s, f, t) =
     tally rs (if success (ToolCallRecord.result r) then (s + 1, f, t + executionTime (ToolCallRecord.result r))
               else (s, f + 1, t + executionTime (ToolCallRecord.result r)))"

definition calculateStatistics :: "'p StateManager \<Rightarrow> Statistics" where
  "calculateStatistics sm =
     (case tally (toolCalls sm) (0, 0, 0) of
        (s, f, t) \<Rightarrow>
          \<lparr>Statistics.totalSteps = length (steps sm),
           totalToolCalls = length (toolCalls sm),
           successfulToolCalls = s,
           failedToolCalls = f,
           totalExecutionTime = t\<rparr>)"

text \<open>
  The order in which an object lists its own properties, as the spread in
  \<open>getHistory\<close> and \<open>Object.keys\<close> see them: first the keys that are array indices (the
  decimal text, without a leading zero, of a number up to \<open>2 ^ 32 - 2\<close>), by ascending
  value, then the other keys in the order of their creation.
\<close>

definition isDigit :: "char \<Rightarrow> bool" where
  "isDigit c = (c \<in> set ''0123456789'')"

definition digitsValue :: "string \<Rightarrow> int" where
  "digitsValue s = foldl (\<lambda>n c. 10 * n + (of_char c - 48)) 0 s"

definition isArrayIndex :: "string \<Rightarrow> bool" where
  "isArrayIndex s =
     (s \<noteq> [] \<and> list_all isDigit s \<and> (length s = 1 \<or> hd s \<noteq> CHR ''0'') \<and>
      digitsValue s < 2 ^ 32 - 1)"

definition ownProperties :: "(string \<times> 'a) list \<Rightarrow> (string \<times> 'a) list" where
  "ownProperties props =
     sort_key (\<lambda>(k, v). digitsValue k) (filter (\<lambda>(k, v). isArrayIndex k) props) @
     filter (\<lambda>(k, v). \<not> isArrayIndex k) props"

definition StateManager_getHistory :: "'p StateManager \<Rightarrow> 'p StepHistory" where
  "StateManager_getHistory sm =
     \<lparr>StepHistory.steps = steps sm,
      StepHistory.branches = ownProperties (branches sm),
      StepHistory.toolCalls = toolCalls sm,
      statistics = calculateStatistics sm\<rparr>"

definition getStep :: "'p StateManager \<Rightarrow> jsnumber \<Rightarrow> 'p InterleavedStepData option" where
  "getStep sm n = find (\<lambda>s. js_strict_eq (stepNumber s) n) (steps sm)"

definition getLastToolResult :: "'p StateManager \<Rightarrow> 'p ToolResultData option" where
  "getLastToolResult sm =
     (if length (toolCalls sm) = 0 then None
      else Some (ToolCallRecord.result (toolCalls sm ! (length (toolCalls sm) - 1))))"

section \<open>Logger\<close>

text \<open>
  The logger writes formatted text to the error stream. The text is not modelled;
  what is modelled is whether a logging call returns or throws, since the calls are
  made inside the \<open>try\<close> block of \<open>processStep\<close>. With \<open>disableLogging\<close> set every
  call returns at once. Otherwise \<open>formatBox\<close> reads \<open>content.length\<close>, which throws a
  \<open>TypeError\<close> when the thought is absent, and the two tool logs call
  \<open>JSON.stringify\<close>.
\<close>

record Logger =
  disableLogging :: bool

definition formatBox :: "string option \<Rightarrow> thrown + unit" where
  "formatBox body =
     (case body of
        None \<Rightarrow> Inl (Error ''Cannot read properties of undefined (reading 'length')'')
      | Some c \<Rightarrow> Inr ())"

definition logThinkingStep :: "Logger \<Rightarrow> 'p InterleavedStepData \<Rightarrow> thrown + unit" where
  "logThinkingStep lg step = (if disableLogging lg then Inr () else formatBox (thought step))"

definition logToolCall :: "Logger \<Rightarrow> 'p host \<Rightarrow> 'p ToolCallData \<Rightarrow> thrown + unit" where
  "logToolCall lg js tc =
     (if disableLogging lg then Inr ()
      else case stringify js (parameters tc) of
             Inl e \<Rightarrow> Inl e
           | Inr s \<Rightarrow> Inr ())"

definition logToolResult :: "Logger \<Rightarrow> 'p host \<Rightarrow> 'p ToolResultData \<Rightarrow> thrown + unit" where
  "logToolResult lg js r =
     (if disableLogging lg then Inr ()
      else if success r then
        (case ToolResultData.result r of
           None \<Rightarrow> Inr ()
         | Some payload \<Rightarrow>
             (case stringifyResultThrows js payload of
                Some e \<Rightarrow> Inl e
              | None \<Rightarrow> Inr ()))
      else Inr ())"

definition logAnalysisStep :: "Logger \<Rightarrow> 'p InterleavedStepData \<Rightarrow> thrown + unit" where
  "logAnalysisStep lg step = (if disableLogging lg then Inr () else formatBox (thought step))"

section \<open>InterleavedThinkingServer\<close>

text \<open>
  The server owns a tool call manager, a state manager and a logger. The copy of the
  configuration that the constructor keeps and never reads again is left out.
\<close>

record 'p InterleavedThinkingServer =
  toolCallManager :: "'p ToolCallManager"
  stateManager :: "'p StateManager"
  logger :: Logger

definition new_InterleavedThinkingServer :: "ServerConfig \<Rightarrow> 'p InterleavedThinkingServer" where
  "new_InterleavedThinkingServer config =
     \<lparr>toolCallManager = new_ToolCallManager
        \<lparr>ToolCallConfig.maxToolCalls =
           (case ServerConfig.maxToolCalls config of None \<Rightarrow> 50 | Some n \<Rightarrow> n),
         ToolCallConfig.defaultTimeout =
           (case ServerConfig.defaultTimeout config of None \<Rightarrow> 30000 | Some t \<Rightarrow> t),
         ToolCallConfig.enableCache =
           (case enableResultCache config of None \<Rightarrow> True | Some c \<Rightarrow> c)\<rparr>,
      stateManager = new_StateManager,
      logger = \<lparr>disableLogging =
        (case ServerConfig.disableLogging config of None \<Rightarrow> False | Some d \<Rightarrow> d)\<rparr>\<rparr>"

definition inferPhase :: "'p InterleavedThinkingServer \<Rightarrow> 'p InterleavedStepData \<Rightarrow> string" where
  "inferPhase srv input =
     (case (if truthy_str (phase input) then phase input else None) of
        Some p \<Rightarrow> p
      | None \<Rightarrow>
          if toolCall input \<noteq> None then ''tool_call''
          else
            (case getStep (stateManager srv) (js_minus (stepNumber input) (Num 1)) of
               Some lastStep \<Rightarrow> if phase lastStep = Some ''tool_call'' then ''analysis''
                                else ''thinking''
             | None \<Rightarrow> ''thinking''))"

definition validateInput :: "'p InterleavedStepData \<Rightarrow> thrown + unit" where
  "validateInput input =
     (if \<not> truthy (stepNumber input) \<or> js_lt (stepNumber input) (Num 1)
      then Inl (Error ''stepNumber must be a positive integer'')
      else if \<not> truthy (totalSteps input) \<or> js_lt (totalSteps input) (Num 1)
      then Inl (Error ''totalSteps must be a positive integer'')
      else if nextStepNeeded input = None
      then Inl (Error ''nextStepNeeded is required'')
      else
        (case phase input of
           None \<Rightarrow> Inr ()
         | Some p \<Rightarrow>
             if p \<noteq> [] \<and> p \<notin> set [''thinking'', ''tool_call'', ''analysis'']
             then Inl (Error ''phase must be one of: thinking, tool_call, analysis'')
             else Inr ()))"

definition errorMessage :: "thrown \<Rightarrow> string" where
  "errorMessage e = (case e of Error m \<Rightarrow> m | NonError s \<Rightarrow> s)"

definition handleError :: "thrown \<Rightarrow> ProcessResult" where
  "handleError e =
     \<lparr>content = Failure
        \<lparr>ErrorResponse.error =
           \<lparr>type =
              (if str_includes (errorMessage e) ''limit reached'' then ''ToolCallLimitError''
               else if str_includes (errorMessage e) ''timeout'' then ''TimeoutError''
               else if str_includes (errorMessage e) ''required'' then ''ValidationError''
               else ''Error''),
            message = errorMessage e,
            recoveryStrategy = Some
              (if str_includes (errorMessage e) ''limit reached''
               then ''Summarize progress and terminate or reset the server''
               else if str_includes (errorMessage e) ''timeout''
               then ''Use simpler tool or increase timeout''
               else if str_includes (errorMessage e) ''required''
               then ''Provide all required fields''
               else ''Check input parameters and try again'')\<rparr>,
         status = ''failed''\<rparr>,
      isError = Some True\<rparr>"

text \<open>The response object assembled at the end of the \<open>try\<close> block.\<close>

definition buildResponse ::
  "'p InterleavedStepData \<Rightarrow> 'p StepHistory \<Rightarrow> 'p ToolResultData option \<Rightarrow> StepResponse" where
  "buildResponse input hist tr =
     \<lparr>StepResponse.stepNumber = stepNumber input,
      StepResponse.totalSteps = totalSteps input,
      StepResponse.nextStepNeeded = nextStepNeeded input,
      StepResponse.branches = set (map fst (StepHistory.branches hist)),
      stepHistoryLength = length (StepHistory.steps hist),
      StepResponse.phase = phase input,
      StepResponse.toolResult =
        (case tr of
           None \<Rightarrow> None
         | Some r \<Rightarrow>
             Some \<lparr>ToolResultSummary.success = success r,
                   ToolResultSummary.executionTime = executionTime r\<rparr>)\<rparr>"

text \<open>
  The \<open>try\<close> block of \<open>processStep\<close>, in its four parts. After validation,
  \<open>resolveStep\<close> is the input with the assignments to \<open>input.phase\<close> and
  \<open>input.totalSteps\<close> made.
\<close>

definition resolveStep ::
  "'p InterleavedThinkingServer \<Rightarrow> 'p InterleavedStepData \<Rightarrow> 'p InterleavedStepData" where
  "resolveStep srv input =
     (let input1 = (if \<not> truthy_str (phase input)
                    then input\<lparr>phase := Some (inferPhase srv input)\<rparr> else input)
      in if js_gt (stepNumber input1) (totalSteps input1)
         then input1\<lparr>totalSteps := stepNumber input1\<rparr> else input1)"

text \<open>
  The \<open>switch\<close> on the phase: a thrown value with the server at that moment, or the
  tool result for the response, the step to store and the server. Each case begins
  with its logging call; the \<open>tool_call\<close> case tests for the \<open>toolCall\<close> first, and logs
  the result between the execution and the record in the state manager.
\<close>

definition processPhase ::
  "'p host \<Rightarrow> 'p InterleavedThinkingServer \<Rightarrow> 'p InterleavedStepData \<Rightarrow> env \<Rightarrow>
     (thrown \<times> 'p InterleavedThinkingServer) +
     ('p ToolResultData option \<times> 'p InterleavedStepData \<times> 'p InterleavedThinkingServer)" where
  "processPhase js srv input ev =
     (if phase input = Some ''thinking'' then
        (case logThinkingStep (logger srv) input of
           Inl e \<Rightarrow> Inl (e, srv)
         | Inr u \<Rightarrow> Inr (None, input, srv))
      else if phase input = Some ''tool_call'' then
        (case toolCall input of
           None \<Rightarrow> Inl (Error ''toolCall is required for tool_call phase'', srv)
         | Some tc \<Rightarrow>
             (case logToolCall (logger srv) js tc of
                Inl e \<Rightarrow> Inl (e, srv)
              | Inr u \<Rightarrow>
                  (case executeToolCall js (toolCallManager srv) tc ev of
                     Inl (e, m) \<Rightarrow> Inl (e, srv\<lparr>toolCallManager := m\<rparr>)
                   | Inr (r, m) \<Rightarrow>
                       (case logToolResult (logger srv) js r of
                          Inl e \<Rightarrow> Inl (e, srv\<lparr>toolCallManager := m\<rparr>)
                        | Inr u \<Rightarrow>
                            Inr (Some r, input\<lparr>toolResult := Some r\<rparr>,
                                 srv\<lparr>toolCallManager := m,
                                     stateManager := addToolCall (stateManager srv)
                                       \<lparr>ToolCallRecord.stepNumber = stepNumber input,
                                        ToolCallRecord.toolCall = tc,
                                        ToolCallRecord.result = r\<rparr>\<rparr>)))))
      else if phase input = Some ''analysis'' then
        (case logAnalysisStep (logger srv) input of
           Inl e \<Rightarrow> Inl (e, srv)
         | Inr u \<Rightarrow> Inr (getLastToolResult (stateManager srv), input, srv))
      else Inr (None, input, srv))"

text \<open>\<open>Inl\<close> is a thrown value, \<open>Inr\<close> the returned envelope, each with the server as
  it is at that moment.\<close>

definition processStep_try ::
  "'p host \<Rightarrow> 'p InterleavedThinkingServer \<Rightarrow> 'p InterleavedStepData \<Rightarrow> env \<Rightarrow>
     (thrown \<times> 'p InterleavedThinkingServer) + (ProcessResult \<times> 'p InterleavedThinkingServer)" where
  "processStep_try js srv input ev =
     (case validateInput input of
        Inl e \<Rightarrow> Inl (e, srv)
      | Inr _ \<Rightarrow>
          (case processPhase js srv (resolveStep srv input) ev of
             Inl thrown_at \<Rightarrow> Inl thrown_at
           | Inr (tr, stored, srv1) \<Rightarrow>
               (case addStep (stateManager srv1) stored of
                  Inl (e, sm) \<Rightarrow> Inl (e, srv1\<lparr>stateManager := sm\<rparr>)
                | Inr sm \<Rightarrow>
                    Inr (\<lparr>content = Response (buildResponse stored (StateManager_getHistory sm) tr),
                          isError = None\<rparr>,
                         srv1\<lparr>stateManager := sm\<rparr>))))"

text \<open>\<open>processStep\<close>: the \<open>try\<close> block, with every thrown value handed to
  \<open>handleError\<close>.\<close>

definition processStep ::
  "'p host \<Rightarrow> 'p InterleavedThinkingServer \<Rightarrow> 'p InterleavedStepData \<Rightarrow> env \<Rightarrow>
     ProcessResult \<times> 'p InterleavedThinkingServer" where
  "processStep js srv input ev =
     (case processStep_try js srv input ev of
        Inl (e, srv') \<Rightarrow> (handleError e, srv')
      | Inr res \<Rightarrow> res)"

definition getHistory :: "'p InterleavedThinkingServer \<Rightarrow> 'p StepHistory" where
  "getHistory srv = StateManager_getHistory (stateManager srv)"

definition reset :: "'p InterleavedThinkingServer \<Rightarrow> 'p InterleavedThinkingServer" where
  "reset srv =
     srv\<lparr>toolCallManager := ToolCallManager_reset (toolCallManager srv),
         stateManager := new_StateManager\<rparr>"

definition injectMockResults ::
  "'p InterleavedThinkingServer \<Rightarrow> (string \<rightharpoonup> 'p ToolResultData) \<Rightarrow> 'p InterleavedThinkingServer" where
  "injectMockResults srv mocks =
     srv\<lparr>toolCallManager := ToolCallManager_injectMockResults (toolCallManager srv) mocks\<rparr>"

text \<open>A session: the steps submitted one after the other, each with what the world
  contributes to it; the results in order and the server at the end.\<close>

fun processSteps ::
  "'p host \<Rightarrow> 'p InterleavedThinkingServer \<Rightarrow> ('p InterleavedStepData \<times> env) list \<Rightarrow>
     ProcessResult list \<times> 'p InterleavedThinkingServer" where
  "processSteps js srv [] = ([], srv)"
| "processSteps js srv ((input, ev) # rest) =
     (case processStep js srv input ev of
        (res, srv1) \<Rightarrow>
          (case processSteps js srv1 rest of
             (ress, srv2) \<Rightarrow> (res # ress, srv2)))"

text \<open>
  A step issues a tool invocation when \<open>processStep\<close> comes to call \<open>executeToolCall\<close>
  and the budget admits the call: that is when the call counter is incremented.
  \<open>invocationsIssued\<close> counts these steps in a session.
\<close>

definition issuesInvocation ::
  "'p host \<Rightarrow> 'p InterleavedThinkingServer \<Rightarrow> 'p InterleavedStepData \<Rightarrow> bool" where
  "issuesInvocation js srv input =
     (validateInput input = Inr () \<and> inferPhase srv input = ''tool_call'' \<and>
      (case toolCall input of
         None \<Rightarrow> False
       | Some tc \<Rightarrow>
           logToolCall (logger srv) js tc = Inr () \<and>
           canExecuteToolCall (toolCallManager srv)))"

fun invocationsIssued ::
  "'p host \<Rightarrow> 'p InterleavedThinkingServer \<Rightarrow> ('p InterleavedStepData \<times> env) list \<Rightarrow> nat" where
  "invocationsIssued js srv [] = 0"
| "invocationsIssued js srv ((input, ev) # rest) =
     (if issuesInvocation js srv input then 1 else 0) +
     invocationsIssued js (snd (processStep js srv input ev)) rest"

text \<open>The servers a caller can bring about: a new one, and then any sequence of
  steps, resets and injections of fixtures.\<close>

inductive reachable :: "'p host \<Rightarrow> 'p InterleavedThinkingServer \<Rightarrow> bool"
  for js :: "'p host" where
  reachable_new: "reachable js (new_InterleavedThinkingServer config)"
| reachable_step:
    "reachable js srv \<Longrightarrow> reachable js (snd (processStep js srv input ev))"
| reachable_reset: "reachable js srv \<Longrightarrow> reachable js (reset srv)"
| reachable_inject: "reachable js srv \<Longrightarrow> reachable js (injectMockResults srv mocks)"

section \<open>Example sessions\<close>

text \<open>
  Concrete inputs for the closed theorems below. The parameters of an example are
  given by their JSON text, or are a cyclic object, which \<open>JSON.stringify\<close> refuses
  with a \<open>TypeError\<close> (given here by the first line of its message).
  \<open>decimalString\<close> gives the decimal digits of an integer, which is what a template
  literal prints for an integer below \<open>10 ^ 21\<close>; the examples use the timeouts 1, 5
  and 30000 only.
\<close>

datatype exampleParameters = JsonText string | Cyclic

definition digit :: "nat \<Rightarrow> char" where
  "digit d = ''0123456789'' ! d"

function decimalString_nat :: "nat \<Rightarrow> string" where
  "decimalString_nat n =
     (if n < 10 then [digit n] else decimalString_nat (n div 10) @ [digit (n mod 10)])"
  by pat_completeness auto
termination
  by (relation "measure id") auto

definition decimalString :: "int \<Rightarrow> string" where
  "decimalString i =
     (if i < 0 then ''-'' @ decimalString_nat (nat (- i)) else decimalString_nat (nat i))"

definition exampleHost :: "exampleParameters host" where
  "exampleHost =
     \<lparr>stringify =
        (\<lambda>p. case p of
                JsonText s \<Rightarrow> Inr s
              | Cyclic \<Rightarrow> Inl (Error ''Converting circular structure to JSON'')),
      stringifyResultThrows =
        (\<lambda>(m, p). case p of
                     JsonText s \<Rightarrow> None
                   | Cyclic \<Rightarrow> Some (Error ''Converting circular structure to JSON'')),
      numberToString = decimalString\<rparr>"

text \<open>The example server allows one tool call and does not log.\<close>

definition exampleConfig :: ServerConfig where
  "exampleConfig =
     \<lparr>ServerConfig.maxToolCalls = Some 1, ServerConfig.defaultTimeout = None,
      ServerConfig.disableLogging = Some True, enableResultCache = None, testMode = None\<rparr>"

definition exampleServer :: "exampleParameters InterleavedThinkingServer" where
  "exampleServer = new_InterleavedThinkingServer exampleConfig"

definition exampleStep ::
  "jsnumber \<Rightarrow> jsnumber \<Rightarrow> string option \<Rightarrow> exampleParameters ToolCallData option \<Rightarrow>
     exampleParameters InterleavedStepData" where
  "exampleStep n t ph tc =
     \<lparr>thought = Some ''t'', stepNumber = n, totalSteps = t, nextStepNeeded = Some True,
      isRevision = None, revisesStep = Undefined, branchFromStep = Undefined, branchId = None,
      needsMoreSteps = None, phase = ph, toolCall = tc, toolResult = None\<rparr>"

definition exampleToolCall :: "int option \<Rightarrow> exampleParameters ToolCallData" where
  "exampleToolCall t =
     \<lparr>ToolCallData.toolName = ''fetch'', parameters = JsonText ''{}'',
      metadata = Some \<lparr>timeout = t, retryCount = None, priority = None\<rparr>\<rparr>"

definition cyclicToolCall :: "exampleParameters ToolCallData" where
  "cyclicToolCall =
     \<lparr>ToolCallData.toolName = ''fetch'', parameters = Cyclic, metadata = None\<rparr>"

definition exampleEnv :: "race_winner \<Rightarrow> env" where
  "exampleEnv w = \<lparr>winner = w, elapsed = 12, isoNow = ''2024-01-01T00:00:00.000Z''\<rparr>"

definition exampleFixture :: "exampleParameters ToolResultData" where
  "exampleFixture =
     \<lparr>toolName = ''fetch'', success = True, result = Some (''fixture'', JsonText ''{}''),
      error = None, executionTime = 7, timestamp = ''2023-12-31T00:00:00.000Z''\<rparr>"

text \<open>The example server after one tool call, made by step 2.\<close>

definition exampleServerAfterCall :: "exampleParameters InterleavedThinkingServer" where
  "exampleServerAfterCall =
     snd (processStep exampleHost exampleServer
            (exampleStep (Num 2) (Num 3) None (Some (exampleToolCall None)))
            (exampleEnv ExecutorResolves))"

text \<open>The manager of the test suite: three calls, one second, cache enabled.\<close>

definition exampleManager :: "exampleParameters ToolCallManager" where
  "exampleManager =
     new_ToolCallManager
       \<lparr>ToolCallConfig.maxToolCalls = 3, ToolCallConfig.defaultTimeout = 1000,
        ToolCallConfig.enableCache = True\<rparr>"

text \<open>A server with the default configuration, new and after one tool call.\<close>

definition defaultServer :: "exampleParameters InterleavedThinkingServer" where
  "defaultServer =
     new_InterleavedThinkingServer
       \<lparr>ServerConfig.maxToolCalls = None, ServerConfig.defaultTimeout = None,
        ServerConfig.disableLogging = None, enableResultCache = None, testMode = None\<rparr>"

definition defaultServerAfterCall :: "exampleParameters InterleavedThinkingServer" where
  "defaultServerAfterCall =
     snd (processStep exampleHost defaultServer
            (exampleStep (Num 2) (Num 3) None (Some (exampleToolCall None)))
            (exampleEnv ExecutorResolves))"

section \<open>Basic facts\<close>

subsection \<open>Rounding\<close>

declare bitLength.simps [simp del]

lemma bitLength_le: "k < 2 ^ n \<Longrightarrow> bitLength k \<le> n"
proof (induction n arbitrary: k)
  case 0
  then show ?case by (simp add: bitLength.simps [of k])
next
  case (Suc n)
  show ?case
  proof (cases "k \<le> 0")
    case True
    then show ?thesis by (simp add: bitLength.simps [of k])
  next
    case False
    from Suc.prems have "k div 2 < 2 ^ n" by simp
    from Suc.IH [OF this] False show ?thesis
      by (simp add: bitLength.simps [of k])
  qed
qed

lemma bitLength_pos: "0 < k \<Longrightarrow> 0 < bitLength k"
  by (simp add: bitLength.simps [of k])

lemma roundHalfEven_of_int [simp]: "roundHalfEven (of_int j) = j"
  by (simp add: roundHalfEven_def)

lemma roundDouble_of_int:
  assumes "0 \<le> k" and "k < 2 ^ 53"
  shows "roundDouble (of_int k) = of_int k"
proof (cases "k = 0")
  case True
  then show ?thesis by (simp add: roundDouble_def)
next
  case False
  with assms(1) have k: "0 < k" by simp
  define L where "L = bitLength k"
  have L53: "L \<le> 53"
    unfolding L_def using assms(2) by (rule bitLength_le)
  have L0: "0 < L"
    unfolding L_def using k by (rule bitLength_pos)
  have fl: "floorLog2 (of_int k) = int L - 1"
    using k by (simp add: floorLog2_def L_def)
  define s where "s = 53 - L"
  have p: "max (floorLog2 (of_int k) - 52) (- 1074) = - int s"
    unfolding fl s_def using L53 L0 by linarith
  have pw: "pow2 (- int s) = 1 / 2 ^ s"
    by (cases "s = 0") (simp_all add: pow2_def)
  have m: "(of_int k :: rat) / pow2 (- int s) = of_int (k * 2 ^ s)"
    unfolding pw by simp
  have r: "roundHalfEven (of_int k / pow2 (- int s)) = k * 2 ^ s"
    unfolding m by (rule roundHalfEven_of_int)
  have "roundDouble (of_int k) =
          of_int (roundHalfEven (of_int k / pow2 (- int s))) * pow2 (- int s)"
    using k by (simp add: roundDouble_def Let_def p)
  also have "\<dots> = of_int (k * 2 ^ s) * (1 / 2 ^ s)"
    by (simp only: pw r [unfolded pw])
  also have "\<dots> = of_int k" by simp
  finally show ?thesis .
qed

lemma roundDouble_exact:
  assumes "q \<in> \<int>" and "0 \<le> q" and "q < 2 ^ 53"
  shows "roundDouble q = q"
proof -
  from assms(1) obtain k :: int where k: "q = of_int k"
    by (rule Ints_cases)
  from assms(2) k have k0: "0 \<le> k" by simp
  have "(of_int k :: rat) < of_int (2 ^ 53)"
    using assms(3) k by simp
  then have "k < 2 ^ 53" by (simp only: of_int_less_iff)
  from roundDouble_of_int [OF k0 this] k show ?thesis by simp
qed

lemma roundDouble_above_exact_range:
  "roundDouble (9007199254740994 - 1) = 9007199254740992"
  by code_simp

subsection \<open>Messages and their classification\<close>

lemma includes_limit [simp]: "str_includes ''Tool call limit reached'' ''limit reached''"
  by code_simp

lemma includes_stepNumber_msg [simp]:
  "\<not> str_includes ''stepNumber must be a positive integer'' ''limit reached''"
  "\<not> str_includes ''stepNumber must be a positive integer'' ''timeout''"
  "\<not> str_includes ''stepNumber must be a positive integer'' ''required''"
  by code_simp+

lemma includes_toolCall_msg [simp]:
  "\<not> str_includes ''toolCall is required for tool_call phase'' ''limit reached''"
  "\<not> str_includes ''toolCall is required for tool_call phase'' ''timeout''"
  "str_includes ''toolCall is required for tool_call phase'' ''required''"
  by code_simp+

lemma includes_nextStepNeeded_msg [simp]:
  "\<not> str_includes ''nextStepNeeded is required'' ''limit reached''"
  "\<not> str_includes ''nextStepNeeded is required'' ''timeout''"
  "str_includes ''nextStepNeeded is required'' ''required''"
  by code_simp+

lemma includes_circular_msg [simp]:
  "\<not> str_includes ''Converting circular structure to JSON'' ''limit reached''"
  "\<not> str_includes ''Converting circular structure to JSON'' ''timeout''"
  "\<not> str_includes ''Converting circular structure to JSON'' ''required''"
  by code_simp+

lemma handleError_limit:
  "handleError (Error ''Tool call limit reached'') =
     \<lparr>content = Failure
        \<lparr>ErrorResponse.error =
           \<lparr>type = ''ToolCallLimitError'', message = ''Tool call limit reached'',
            recoveryStrategy = Some ''Summarize progress and terminate or reset the server''\<rparr>,
         status = ''failed''\<rparr>,
      isError = Some True\<rparr>"
  by (simp add: handleError_def errorMessage_def)

lemma handleError_stepNumber:
  "handleError (Error ''stepNumber must be a positive integer'') =
     \<lparr>content = Failure
        \<lparr>ErrorResponse.error =
           \<lparr>type = ''Error'', message = ''stepNumber must be a positive integer'',
            recoveryStrategy = Some ''Check input parameters and try again''\<rparr>,
         status = ''failed''\<rparr>,
      isError = Some True\<rparr>"
  by (simp add: handleError_def errorMessage_def)

lemma handleError_toolCall_required:
  "handleError (Error ''toolCall is required for tool_call phase'') =
     \<lparr>content = Failure
        \<lparr>ErrorResponse.error =
           \<lparr>type = ''ValidationError'', message = ''toolCall is required for tool_call phase'',
            recoveryStrategy = Some ''Provide all required fields''\<rparr>,
         status = ''failed''\<rparr>,
      isError = Some True\<rparr>"
  by (simp add: handleError_def errorMessage_def)

lemma js_strict_eq_Num [simp]: "js_strict_eq x (Num b) = (x = Num b)"
  by (cases x) simp_all

lemma validateInput_Inr:
  assumes "validateInput input = Inr u"
  shows "\<exists>n t. stepNumber input = Num n \<and> 1 \<le> n \<and> totalSteps input = Num t \<and> 1 \<le> t"
proof -
  from assms have a: "truthy (stepNumber input)" "\<not> js_lt (stepNumber input) (Num 1)"
    and b: "truthy (totalSteps input)" "\<not> js_lt (totalSteps input) (Num 1)"
    by (auto simp: validateInput_def split: if_splits)
  from a obtain n where n: "stepNumber input = Num n" "1 \<le> n"
    by (cases "stepNumber input") auto
  from b obtain t where t: "totalSteps input = Num t" "1 \<le> t"
    by (cases "totalSteps input") auto
  from n t show ?thesis by blast
qed

lemma processStep_invalid:
  "validateInput input = Inl e \<Longrightarrow> processStep js srv input ev = (handleError e, srv)"
  by (simp add: processStep_def processStep_try_def)

lemma processStep_valid:
  "validateInput input = Inr u \<Longrightarrow>
   processStep js srv input ev =
     (case processPhase js srv (resolveStep srv input) ev of
        Inl (e, srv') \<Rightarrow> (handleError e, srv')
      | Inr (tr, stored, srv1) \<Rightarrow>
          (case addStep (stateManager srv1) stored of
             Inl (e, sm) \<Rightarrow> (handleError e, srv1\<lparr>stateManager := sm\<rparr>)
           | Inr sm \<Rightarrow>
               (\<lparr>content = Response (buildResponse stored (StateManager_getHistory sm) tr),
                 isError = None\<rparr>,
                srv1\<lparr>stateManager := sm\<rparr>)))"
  by (simp add: processStep_def processStep_try_def split: sum.splits prod.splits)

lemma phase_resolveStep [simp]: "phase (resolveStep srv input) = Some (inferPhase srv input)"
  by (cases "phase input") (simp_all add: resolveStep_def inferPhase_def Let_def)

lemma toolCall_resolveStep [simp]: "toolCall (resolveStep srv input) = toolCall input"
  by (simp add: resolveStep_def Let_def)

lemma stepNumber_resolveStep [simp]: "stepNumber (resolveStep srv input) = stepNumber input"
  by (simp add: resolveStep_def Let_def)

lemma totalSteps_resolveStep:
  "stepNumber input = Num n \<Longrightarrow> totalSteps input = Num t \<Longrightarrow>
   totalSteps (resolveStep srv input) = Num (max t n)"
  by (simp add: resolveStep_def Let_def max_def)

lemma validateInput_stepNumber:
  "\<not> truthy (stepNumber input) \<or> js_lt (stepNumber input) (Num 1) \<Longrightarrow>
   validateInput input = Inl (Error ''stepNumber must be a positive integer'')"
  by (simp add: validateInput_def)

lemma processStep_try_missing_toolCall:
  assumes "validateInput input = Inr u" and "inferPhase srv input = ''tool_call''"
    and "toolCall input = None"
  shows "processStep_try js srv input ev =
           Inl (Error ''toolCall is required for tool_call phase'', srv)"
  using assms by (simp add: processStep_try_def processPhase_def)

lemma processStep_missing_toolCall:
  assumes "validateInput input = Inr u" and "inferPhase srv input = ''tool_call''"
    and "toolCall input = None"
  shows "processStep js srv input ev =
           (handleError (Error ''toolCall is required for tool_call phase''), srv)"
  using assms by (simp add: processStep_valid processPhase_def)

subsection \<open>What a processed step leaves behind\<close>

lemma processPhase_Inr:
  assumes "processPhase js srv input ev = Inr (tr, stored, srv1)"
  shows "phase stored = phase input \<and> totalSteps stored = totalSteps input \<and>
         stepNumber stored = stepNumber input \<and>
         steps (stateManager srv1) = steps (stateManager srv) \<and> logger srv1 = logger srv"
  using assms
  by (auto simp: processPhase_def addToolCall_def split: if_splits option.splits sum.splits prod.splits)

lemma processPhase_Inl:
  assumes "processPhase js srv input ev = Inl (e, srv1)"
  shows "stateManager srv1 = stateManager srv \<and> logger srv1 = logger srv"
  using assms
  by (auto simp: processPhase_def split: if_splits option.splits sum.splits prod.splits)

lemma addStep_Inr: "addStep sm step = Inr sm' \<Longrightarrow> steps sm' = steps sm @ [step]"
  by (auto simp: addStep_def Let_def split: option.splits if_splits)

lemma addStep_Inl: "addStep sm step = Inl (e, sm') \<Longrightarrow> steps sm' = steps sm @ [step]"
  by (auto simp: addStep_def Let_def split: option.splits if_splits)

lemma processStep_Response:
  assumes v: "validateInput input = Inr u"
    and r: "processStep js srv input ev = (\<lparr>content = Response resp, isError = None\<rparr>, srv')"
  shows "\<exists>stored. steps (stateManager srv') = steps (stateManager srv) @ [stored] \<and>
           phase stored = Some (inferPhase srv input) \<and>
           totalSteps stored = totalSteps (resolveStep srv input) \<and>
           stepNumber stored = stepNumber input \<and>
           StepResponse.phase resp = phase stored \<and>
           StepResponse.totalSteps resp = totalSteps stored \<and>
           stepHistoryLength resp = length (steps (stateManager srv)) + 1"
proof (cases "processPhase js srv (resolveStep srv input) ev")
  case (Inl a)
  with v r show ?thesis
    by (cases a) (simp add: processStep_valid handleError_def)
next
  case (Inr b)
  then obtain tr stored srv1 where
    p: "processPhase js srv (resolveStep srv input) ev = Inr (tr, stored, srv1)"
    by (cases b) auto
  note f = processPhase_Inr [OF p]
  show ?thesis
  proof (cases "addStep (stateManager srv1) stored")
    case (Inl a)
    with v r p show ?thesis
      by (cases a) (simp add: processStep_valid handleError_def)
  next
    case (Inr sm)
    from addStep_Inr [OF Inr] f have s: "steps sm = steps (stateManager srv) @ [stored]"
      by simp
    from v r p Inr have resp: "resp = buildResponse stored (StateManager_getHistory sm) tr"
      and srv': "srv' = srv1\<lparr>stateManager := sm\<rparr>"
      by (simp_all add: processStep_valid)
    from s f show ?thesis
      by (intro exI [of _ stored])
         (simp add: resp srv' buildResponse_def StateManager_getHistory_def)
  qed
qed

lemma processStep_Failure:
  assumes v: "validateInput input = Inr u"
    and r: "processStep js srv input ev = (res, srv')"
    and f: "content res = Failure x"
  shows "steps (stateManager srv') = steps (stateManager srv) \<or>
         (\<exists>stored. steps (stateManager srv') = steps (stateManager srv) @ [stored] \<and>
            phase stored = Some (inferPhase srv input) \<and>
            totalSteps stored = totalSteps (resolveStep srv input) \<and>
            stepNumber stored = stepNumber input)"
proof (cases "processPhase js srv (resolveStep srv input) ev")
  case (Inl a)
  then obtain e srv1 where
    p: "processPhase js srv (resolveStep srv input) ev = Inl (e, srv1)"
    by (cases a) auto
  from v r p have "srv' = srv1" by (simp add: processStep_valid)
  with processPhase_Inl [OF p] show ?thesis by simp
next
  case (Inr b)
  then obtain tr stored srv1 where
    p: "processPhase js srv (resolveStep srv input) ev = Inr (tr, stored, srv1)"
    by (cases b) auto
  note g = processPhase_Inr [OF p]
  show ?thesis
  proof (cases "addStep (stateManager srv1) stored")
    case (Inl a)
    then obtain e sm where a: "addStep (stateManager srv1) stored = Inl (e, sm)"
      by (cases a) auto
    from v r p a have srv': "srv' = srv1\<lparr>stateManager := sm\<rparr>"
      by (simp add: processStep_valid)
    from addStep_Inl [OF a] g have "steps sm = steps (stateManager srv) @ [stored]"
      by simp
    with g show ?thesis by (simp add: srv')
  next
    case (Inr sm)
    with v r p f show ?thesis by (auto simp: processStep_valid)
  qed
qed

lemma processStep_cases:
  "(\<exists>resp. fst (processStep js srv input ev) = \<lparr>content = Response resp, isError = None\<rparr>) \<or>
   (\<exists>e. fst (processStep js srv input ev) = handleError e)"
proof (cases "processStep_try js srv input ev")
  case (Inl a)
  then obtain e srv' where "processStep_try js srv input ev = Inl (e, srv')"
    by (cases a) auto
  then have "fst (processStep js srv input ev) = handleError e"
    by (simp add: processStep_def)
  then show ?thesis by blast
next
  case (Inr b)
  then have "\<exists>resp. fst b = \<lparr>content = Response resp, isError = None\<rparr>"
    by (auto simp: processStep_try_def split: sum.splits prod.splits)
  with Inr show ?thesis by (simp add: processStep_def)
qed

lemma inferPhase_spec:
  assumes "stepNumber input = Num n" and "\<not> truthy_str (phase input)"
  shows "inferPhase srv input =
       (if toolCall input \<noteq> None then ''tool_call''
        else case find (\<lambda>s. stepNumber s = Num (roundDouble (n - 1))) (steps (stateManager srv)) of
               Some s \<Rightarrow> if phase s = Some ''tool_call'' then ''analysis'' else ''thinking''
             | None \<Rightarrow> ''thinking'')"
  using assms by (simp add: inferPhase_def getStep_def)

subsection \<open>The tool call manager, case by case\<close>

lemma includes_timeout_msg:
  "str_includes (''Tool execution timeout after '' @ x @ ''ms'') ''timeout''"
proof -
  have "''Tool execution timeout after '' @ x @ ''ms'' =
        ''Tool execution '' @ ''timeout'' @ ('' after '' @ x @ ''ms'')"
    by simp
  then show ?thesis
    unfolding str_includes_def by (metis sublist_appendI)
qed

lemma createTimeoutPromise_includes:
  "\<exists>msg. createTimeoutPromise js t = Error msg \<and> str_includes msg ''timeout''"
  unfolding createTimeoutPromise_def using includes_timeout_msg by blast

lemma lookupMock_callCount [simp]:
  "lookupMock js (m\<lparr>callCount := c\<rparr>) tc = lookupMock js m tc"
  by (simp add: lookupMock_def)

lemma lookupCache_callCount [simp]:
  "lookupCache js (m\<lparr>callCount := c\<rparr>) tc = lookupCache js m tc"
  by (simp add: lookupCache_def split: sum.splits)

lemma effectiveTimeout_callCount [simp]:
  "effectiveTimeout (m\<lparr>callCount := c\<rparr>) tc = effectiveTimeout m tc"
  by (simp add: effectiveTimeout_def split: option.splits)

lemma getCacheKey_Inl: "getCacheKey js tc = Inl e \<longleftrightarrow> stringify js (parameters tc) = Inl e"
  by (simp add: getCacheKey_def split: sum.splits)

lemma lookupMock_Inl:
  "lookupMock js m tc = Inl e \<longleftrightarrow> mockResults m \<noteq> None \<and> stringify js (parameters tc) = Inl e"
  by (auto simp: lookupMock_def getCacheKey_def split: option.splits sum.splits)

lemma lookupCache_Inl:
  "lookupCache js m tc = Inl e \<longleftrightarrow> enableCache m \<and> stringify js (parameters tc) = Inl e"
  by (auto simp: lookupCache_def getCacheKey_def split: sum.splits)

lemma lookupCache_key:
  "enableCache m \<Longrightarrow> lookupCache js m tc = Inr x \<Longrightarrow>
   \<exists>k. getCacheKey js tc = Inr k \<and> x = resultCache m k"
  by (auto simp: lookupCache_def split: sum.splits)

lemma lookupCache_disabled: "\<not> enableCache m \<Longrightarrow> lookupCache js m tc = Inr None"
  by (simp add: lookupCache_def)

lemma executeToolCall_exhausted:
  "\<not> canExecuteToolCall m \<Longrightarrow>
   executeToolCall js m tc ev = Inl (Error ''Tool call limit reached'', m)"
  by (simp add: executeToolCall_def)

lemma executeToolCall_mock:
  "canExecuteToolCall m \<Longrightarrow> lookupMock js m tc = Inr (Some fixture) \<Longrightarrow>
   executeToolCall js m tc ev = Inr (fixture, m\<lparr>callCount := callCount m + 1\<rparr>)"
  by (simp add: executeToolCall_def)

lemma executeToolCall_cached:
  "canExecuteToolCall m \<Longrightarrow> lookupMock js m tc = Inr None \<Longrightarrow>
   lookupCache js m tc = Inr (Some cached) \<Longrightarrow>
   executeToolCall js m tc ev = Inr (cached, m\<lparr>callCount := callCount m + 1\<rparr>)"
  by (simp add: executeToolCall_def)

lemma executeToolCall_run:
  "canExecuteToolCall m \<Longrightarrow> lookupMock js m tc = Inr None \<Longrightarrow>
   lookupCache js m tc = Inr None \<Longrightarrow>
   executeToolCall js m tc ev =
     (case promiseRace js (winner ev) tc (effectiveTimeout m tc) of
        Inl e \<Rightarrow> Inr (failureResult tc e ev, m\<lparr>callCount := callCount m + 1\<rparr>)
      | Inr r \<Rightarrow>
          if enableCache m \<and> success r then
            (case getCacheKey js tc of
               Inl e \<Rightarrow> Inr (failureResult tc e ev, m\<lparr>callCount := callCount m + 1\<rparr>)
             | Inr k \<Rightarrow>
                 Inr (r\<lparr>executionTime := elapsed ev, timestamp := isoNow ev\<rparr>,
                      m\<lparr>callCount := callCount m + 1,
                        resultCache := (resultCache m)(k \<mapsto> r)\<rparr>))
          else Inr (r\<lparr>executionTime := elapsed ev, timestamp := isoNow ev\<rparr>,
                    m\<lparr>callCount := callCount m + 1\<rparr>))"
  by (simp add: executeToolCall_def Let_def split: sum.splits)

lemma executeToolCall_Inl:
  assumes "executeToolCall js m tc ev = Inl (e, m')"
  shows "(\<not> canExecuteToolCall m \<and> e = Error ''Tool call limit reached'' \<and> m' = m) \<or>
         (canExecuteToolCall m \<and> stringify js (parameters tc) = Inl e \<and>
          (mockResults m \<noteq> None \<or> enableCache m) \<and>
          m' = m\<lparr>callCount := callCount m + 1\<rparr>)"
proof (cases "canExecuteToolCall m")
  case False
  with assms show ?thesis by (simp add: executeToolCall_exhausted)
next
  case True
  show ?thesis
  proof (cases "lookupMock js m tc")
    case (Inl a)
    with assms True have "a = e" "m' = m\<lparr>callCount := callCount m + 1\<rparr>"
      by (simp_all add: executeToolCall_def Let_def)
    with Inl True show ?thesis by (simp add: lookupMock_Inl)
  next
    case (Inr x)
    note mock = this
    show ?thesis
    proof (cases x)
      case (Some fixture)
      with assms True mock show ?thesis by (simp add: executeToolCall_mock)
    next
      case None
      show ?thesis
      proof (cases "lookupCache js m tc")
        case (Inl a)
        with assms True mock None have "a = e" "m' = m\<lparr>callCount := callCount m + 1\<rparr>"
          by (simp_all add: executeToolCall_def Let_def)
        with Inl True show ?thesis by (simp add: lookupCache_Inl)
      next
        case (Inr y)
        with assms True mock None show ?thesis
          by (cases y)
             (auto simp: executeToolCall_cached executeToolCall_run split: sum.splits if_splits)
      qed
    qed
  qed
qed

lemma executeToolCall_Inr_ex:
  assumes "canExecuteToolCall m"
    and "(\<exists>k. getCacheKey js tc = Inr k) \<or> (mockResults m = None \<and> \<not> enableCache m)"
  shows "\<exists>r m'. executeToolCall js m tc ev = Inr (r, m')"
proof (cases "executeToolCall js m tc ev")
  case (Inl a)
  then obtain e m' where "executeToolCall js m tc ev = Inl (e, m')"
    by (cases a) auto
  from executeToolCall_Inl [OF this] assms show ?thesis
    by (auto simp: getCacheKey_def split: sum.splits)
next
  case (Inr b)
  then show ?thesis by (cases b) auto
qed

lemma executeToolCall_frame:
  assumes "executeToolCall js m tc ev = Inr (r, m')"
  shows "mockResults m' = mockResults m \<and> maxToolCalls m' = maxToolCalls m \<and>
         enableCache m' = enableCache m \<and> defaultTimeout m' = defaultTimeout m \<and>
         callCount m' = callCount m + 1 \<and> canExecuteToolCall m"
  using assms
  by (auto simp: executeToolCall_def Let_def split: if_splits option.splits sum.splits)

lemma executeToolCall_frame_Inl:
  assumes "executeToolCall js m tc ev = Inl (e, m')"
  shows "mockResults m' = mockResults m \<and> maxToolCalls m' = maxToolCalls m \<and>
         enableCache m' = enableCache m \<and> defaultTimeout m' = defaultTimeout m \<and>
         resultCache m' = resultCache m \<and>
         callCount m' = callCount m + (if canExecuteToolCall m then 1 else 0)"
  using executeToolCall_Inl [OF assms] by auto

lemma executeToolCall_cache:
  assumes "executeToolCall js m tc ev = Inr (r, m')"
  shows "resultCache m' = resultCache m \<or>
         (enableCache m \<and> winner ev = ExecutorResolves \<and>
          (\<exists>k. getCacheKey js tc = Inr k \<and>
               resultCache m' = (resultCache m)(k \<mapsto> simulateToolExecution tc)))"
  using assms
  by (auto simp: executeToolCall_def Let_def promiseRace_def
      split: if_splits option.splits sum.splits race_winner.splits)

lemma simulateToolExecution_fields [simp]:
  "success (simulateToolExecution tc)"
  "executionTime (simulateToolExecution tc) = 0"
  "timestamp (simulateToolExecution tc) = ''''"
  by (simp_all add: simulateToolExecution_def)

subsection \<open>What a step does to the tool call manager and the logger\<close>

lemma processStep_logger [simp]: "logger (snd (processStep js srv input ev)) = logger srv"
proof (cases "validateInput input")
  case (Inl e)
  then show ?thesis by (simp add: processStep_invalid)
next
  case (Inr u)
  show ?thesis
  proof (cases "processPhase js srv (resolveStep srv input) ev")
    case (Inl a)
    then obtain e srv1 where a: "processPhase js srv (resolveStep srv input) ev = Inl (e, srv1)"
      by (cases a) auto
    from processPhase_Inl [OF a] Inr a show ?thesis
      by (simp add: processStep_valid)
  next
    case b: (Inr b)
    then obtain tr stored srv1
      where p: "processPhase js srv (resolveStep srv input) ev = Inr (tr, stored, srv1)"
      by (cases b) auto
    from processPhase_Inr [OF p] Inr p show ?thesis
      by (simp add: processStep_valid split: sum.splits prod.splits)
  qed
qed

lemma processSteps_logger [simp]: "logger (snd (processSteps js srv xs)) = logger srv"
proof (induction xs arbitrary: srv)
  case Nil
  then show ?case by simp
next
  case (Cons x xs)
  obtain input ev where x: "x = (input, ev)" by (cases x)
  obtain res srv1 where p: "processStep js srv input ev = (res, srv1)"
    by (cases "processStep js srv input ev")
  from processStep_logger [of js srv input ev] p have "logger srv1 = logger srv" by simp
  with Cons.IH [of srv1] x p show ?case
    by (auto split: prod.splits)
qed

lemma processStep_manager:
  "toolCallManager (snd (processStep js srv input ev)) = toolCallManager srv \<or>
   (\<exists>tc r. executeToolCall js (toolCallManager srv) tc ev =
              Inr (r, toolCallManager (snd (processStep js srv input ev)))) \<or>
   (\<exists>tc e. executeToolCall js (toolCallManager srv) tc ev =
              Inl (e, toolCallManager (snd (processStep js srv input ev))))"
proof (cases "validateInput input")
  case (Inl e)
  then show ?thesis by (simp add: processStep_invalid)
next
  case (Inr u)
  show ?thesis
  proof (cases "phase (resolveStep srv input) = Some ''tool_call'' \<and> toolCall input \<noteq> None")
    case False
    with Inr show ?thesis
      by (auto simp: processStep_valid processPhase_def split: sum.splits prod.splits option.splits)
  next
    case True
    then obtain tc where tc: "toolCall input = Some tc" by auto
    show ?thesis
    proof (cases "logToolCall (logger srv) js tc")
      case (Inl e)
      with Inr True tc show ?thesis
        by (simp add: processStep_valid processPhase_def)
    next
      case lg: (Inr v)
      show ?thesis
      proof (cases "executeToolCall js (toolCallManager srv) tc ev")
        case (Inl a)
        then obtain e m where a: "executeToolCall js (toolCallManager srv) tc ev = Inl (e, m)"
          by (cases a) auto
        with Inr True tc lg
        have "toolCallManager (snd (processStep js srv input ev)) = m"
          by (simp add: processStep_valid processPhase_def)
        with a show ?thesis by blast
      next
        case (Inr b)
        then obtain r m where b: "executeToolCall js (toolCallManager srv) tc ev = Inr (r, m)"
          by (cases b) auto
        with \<open>validateInput input = Inr u\<close> True tc lg
        have "toolCallManager (snd (processStep js srv input ev)) = m"
          by (simp add: processStep_valid processPhase_def split: sum.splits prod.splits)
        with b show ?thesis by blast
      qed
    qed
  qed
qed

lemma processStep_manager_frame:
  "mockResults (toolCallManager (snd (processStep js srv input ev))) =
     mockResults (toolCallManager srv) \<and>
   maxToolCalls (toolCallManager (snd (processStep js srv input ev))) =
     maxToolCalls (toolCallManager srv) \<and>
   enableCache (toolCallManager (snd (processStep js srv input ev))) =
     enableCache (toolCallManager srv) \<and>
   defaultTimeout (toolCallManager (snd (processStep js srv input ev))) =
     defaultTimeout (toolCallManager srv)"
  using processStep_manager [of js srv input ev]
  by (auto dest: executeToolCall_frame executeToolCall_frame_Inl)

lemma processSteps_manager_frame:
  "mockResults (toolCallManager (snd (processSteps js srv xs))) =
     mockResults (toolCallManager srv) \<and>
   maxToolCalls (toolCallManager (snd (processSteps js srv xs))) =
     maxToolCalls (toolCallManager srv) \<and>
   enableCache (toolCallManager (snd (processSteps js srv xs))) =
     enableCache (toolCallManager srv) \<and>
   defaultTimeout (toolCallManager (snd (processSteps js srv xs))) =
     defaultTimeout (toolCallManager srv)"
proof (induction xs arbitrary: srv)
  case Nil
  then show ?case by simp
next
  case (Cons x xs)
  obtain input ev where x: "x = (input, ev)" by (cases x)
  obtain res srv1 where p: "processStep js srv input ev = (res, srv1)"
    by (cases "processStep js srv input ev")
  from processStep_manager_frame [of js srv input ev] p Cons.IH [of srv1] x show ?case
    by (auto split: prod.splits)
qed

lemma processStep_limit:
  assumes "\<not> canExecuteToolCall (toolCallManager srv)" and "validateInput input = Inr u"
    and "toolCall input = Some tc" and "inferPhase srv input = ''tool_call''"
    and "logToolCall (logger srv) js tc = Inr v"
  shows "processStep js srv input ev = (handleError (Error ''Tool call limit reached''), srv)"
  using assms by (simp add: processStep_valid processPhase_def executeToolCall_exhausted)

lemma inferPhase_toolCall:
  "toolCall input \<noteq> None \<Longrightarrow> \<not> truthy_str (phase input) \<or> phase input = Some ''tool_call'' \<Longrightarrow>
   inferPhase srv input = ''tool_call''"
  by (cases "phase input") (auto simp: inferPhase_def)

lemma processStep_exhausted:
  assumes "\<not> canExecuteToolCall (toolCallManager srv)"
  shows "toolCallManager (snd (processStep js srv input ev)) = toolCallManager srv"
  using processStep_manager [of js srv input ev] assms
  by (auto simp: executeToolCall_exhausted)

lemma processSteps_exhausted:
  "\<not> canExecuteToolCall (toolCallManager srv) \<Longrightarrow>
   toolCallManager (snd (processSteps js srv xs)) = toolCallManager srv"
proof (induction xs arbitrary: srv)
  case Nil
  then show ?case by simp
next
  case (Cons x xs)
  obtain input ev where x: "x = (input, ev)" by (cases x)
  obtain res srv1 where p: "processStep js srv input ev = (res, srv1)"
    by (cases "processStep js srv input ev")
  from processStep_exhausted [OF Cons.prems, of js input ev] p
  have m: "toolCallManager srv1 = toolCallManager srv" by simp
  with Cons.prems have "\<not> canExecuteToolCall (toolCallManager srv1)" by simp
  from Cons.IH [OF this] m x p show ?case
    by (auto split: prod.splits)
qed

text \<open>The call counter goes up by one exactly at the steps that issue an invocation.\<close>

lemma processStep_callCount:
  "callCount (toolCallManager (snd (processStep js srv input ev))) =
     callCount (toolCallManager srv) + (if issuesInvocation js srv input then 1 else 0)"
proof (cases "validateInput input")
  case (Inl e)
  then show ?thesis by (simp add: processStep_invalid issuesInvocation_def)
next
  case (Inr u)
  note valid = this
  have ph: "phase (resolveStep srv input) = Some (inferPhase srv input)"
    by (rule phase_resolveStep)
  show ?thesis
  proof (cases "inferPhase srv input = ''tool_call''")
    case False
    with valid ph show ?thesis
      by (auto simp: processStep_valid processPhase_def issuesInvocation_def
          split: sum.splits prod.splits option.splits)
  next
    case True
    show ?thesis
    proof (cases "toolCall input")
      case None
      with valid ph True show ?thesis
        by (simp add: processStep_valid processPhase_def issuesInvocation_def)
    next
      case (Some tc)
      show ?thesis
      proof (cases "logToolCall (logger srv) js tc")
        case (Inl e)
        with valid ph True Some show ?thesis
          by (simp add: processStep_valid processPhase_def issuesInvocation_def)
      next
        case lg: (Inr v)
        have iss: "issuesInvocation js srv input = canExecuteToolCall (toolCallManager srv)"
          using valid True Some lg by (simp add: issuesInvocation_def)
        show ?thesis
        proof (cases "executeToolCall js (toolCallManager srv) tc ev")
          case (Inl a)
          then obtain e m where a: "executeToolCall js (toolCallManager srv) tc ev = Inl (e, m)"
            by (cases a) auto
          with valid ph True Some lg
          have "toolCallManager (snd (processStep js srv input ev)) = m"
            by (simp add: processStep_valid processPhase_def)
          with executeToolCall_frame_Inl [OF a] iss show ?thesis by simp
        next
          case (Inr b)
          then obtain r m where b: "executeToolCall js (toolCallManager srv) tc ev = Inr (r, m)"
            by (cases b) auto
          with valid ph True Some lg
          have "toolCallManager (snd (processStep js srv input ev)) = m"
            by (simp add: processStep_valid processPhase_def split: sum.splits prod.splits)
          with executeToolCall_frame [OF b] iss show ?thesis by simp
        qed
      qed
    qed
  qed
qed

lemma processSteps_callCount:
  "callCount (toolCallManager (snd (processSteps js srv xs))) =
     callCount (toolCallManager srv) + invocationsIssued js srv xs"
proof (induction xs arbitrary: srv)
  case Nil
  then show ?case by simp
next
  case (Cons x xs)
  obtain input ev where x: "x = (input, ev)" by (cases x)
  obtain res srv1 where p: "processStep js srv input ev = (res, srv1)"
    by (cases "processStep js srv input ev")
  from processStep_callCount [of js srv input ev] p
  have "callCount (toolCallManager srv1) =
          callCount (toolCallManager srv) + (if issuesInvocation js srv input then 1 else 0)"
    by simp
  with Cons.IH [of srv1] x p show ?case
    by (auto split: prod.splits)
qed

subsection \<open>The example sessions, evaluated\<close>

lemmas example_defs = processStep_def processStep_try_def validateInput_def exampleStep_def
      resolveStep_def inferPhase_def processPhase_def executeToolCall_def canExecuteToolCall_def
      lookupMock_def lookupCache_def promiseRace_def simulateToolExecution_def effectiveTimeout_def
      exampleServer_def exampleConfig_def new_InterleavedThinkingServer_def new_StateManager_def
      new_ToolCallManager_def getStep_def addStep_def addToolCall_def getCacheKey_def
      exampleToolCall_def exampleEnv_def buildResponse_def StateManager_getHistory_def
      getLastToolResult_def handleError_def errorMessage_def failureResult_def Let_def
      exampleHost_def logThinkingStep_def logToolCall_def logToolResult_def logAnalysisStep_def
      formatBox_def ownProperties_def cyclicToolCall_def

lemma exampleServerAfterCall_eq: "exampleServerAfterCall =
  \<lparr>toolCallManager =
     \<lparr>maxToolCalls = 1, defaultTimeout = 30000, enableCache = True, callCount = 1,
      resultCache = [''fetch:{}'' \<mapsto> simulateToolExecution (exampleToolCall None)],
      mockResults = None\<rparr>,
   stateManager =
     \<lparr>steps = [(exampleStep (Num 2) (Num 3) (Some ''tool_call'') (Some (exampleToolCall None)))
                 \<lparr>toolResult := Some ((simulateToolExecution (exampleToolCall None))
                     \<lparr>executionTime := 12, timestamp := ''2024-01-01T00:00:00.000Z''\<rparr>)\<rparr>],
      branches = [],
      toolCalls = [\<lparr>ToolCallRecord.stepNumber = Num 2,
                    ToolCallRecord.toolCall = exampleToolCall None,
                    ToolCallRecord.result = (simulateToolExecution (exampleToolCall None))
                     \<lparr>executionTime := 12, timestamp := ''2024-01-01T00:00:00.000Z''\<rparr>\<rparr>]\<rparr>,
   logger = \<lparr>disableLogging = True\<rparr>\<rparr>"
  by (simp add: exampleServerAfterCall_def example_defs)

lemma includes_timeout_1ms: "str_includes ''Tool execution timeout after 1ms'' ''timeout''"
  by code_simp

lemma decimalString_1 [simp]: "decimalString 1 = ''1''"
  by (simp add: decimalString_def digit_def)

lemma exampleManager_first_call:
  "executeToolCall exampleHost exampleManager (exampleToolCall None) (exampleEnv ExecutorResolves) =
     Inr ((simulateToolExecution (exampleToolCall None))
            \<lparr>executionTime := 12, timestamp := ''2024-01-01T00:00:00.000Z''\<rparr>,
          exampleManager
            \<lparr>callCount := 1,
             resultCache := [''fetch:{}'' \<mapsto> simulateToolExecution (exampleToolCall None)]\<rparr>)"
  by (simp add: executeToolCall_def canExecuteToolCall_def lookupMock_def lookupCache_def
      promiseRace_def exampleManager_def new_ToolCallManager_def exampleEnv_def getCacheKey_def
      exampleToolCall_def exampleHost_def Let_def)

lemma defaultServerAfterCall_manager:
  "toolCallManager defaultServerAfterCall =
     \<lparr>maxToolCalls = 50, defaultTimeout = 30000, enableCache = True, callCount = 1,
      resultCache = [''fetch:{}'' \<mapsto> simulateToolExecution (exampleToolCall None)],
      mockResults = None\<rparr>"
  by (simp add: defaultServerAfterCall_def defaultServer_def example_defs)

lemma exampleServer_session:
  "snd (processSteps exampleHost exampleServer
     [(exampleStep (Num 2) (Num 3) None (Some (exampleToolCall None)),
       exampleEnv ExecutorResolves)]) = exampleServerAfterCall"
  by (simp add: exampleServerAfterCall_def split: prod.splits)

section \<open>Phase inference\<close>

text \<open>
  Beyond \<open>2 ^ 53\<close> the subtraction of the code is no longer exact: \<open>9007199254740994 - 1\<close>
  is \<open>9007199254740992\<close>. So a step numbered \<open>9007199254740994\<close> without phase and
  without \<open>toolCall\<close> is an analysis step when the stored step numbered
  \<open>9007199254740992\<close> is a tool call.
\<close>

lemma inferPhase_beyond_exact_range:
  "js_minus (Num 9007199254740994) (Num 1) = Num 9007199254740992 \<and>
   inferPhase
     (exampleServer\<lparr>stateManager := new_StateManager
        \<lparr>steps := [exampleStep (Num 9007199254740992) (Num 9007199254740994)
                     (Some ''tool_call'') (Some (exampleToolCall None))]\<rparr>\<rparr>)
     (exampleStep (Num 9007199254740994) (Num 9007199254740994) None None) = ''analysis''"
proof -
  have r: "roundDouble 9007199254740993 = 9007199254740992"
    by code_simp
  then show ?thesis
    by (simp add: inferPhase_def getStep_def exampleStep_def new_StateManager_def)
qed

text \<open>
  Claim C1: for a step that passes validation and has no explicit phase, the phase
  that \<open>inferPhase\<close> resolves is \<open>tool_call\<close> when \<open>toolCall\<close> is present; otherwise
  \<open>analysis\<close> when the first stored step whose \<open>stepNumber\<close> equals the incoming
  \<open>stepNumber\<close> minus 1 has the phase \<open>tool_call\<close>; otherwise \<open>thinking\<close>. The
  difference is the one the code computes, \<open>js_minus\<close>: the exact difference rounded to
  the nearest double, which for an integral \<open>stepNumber\<close> up to \<open>2 ^ 53\<close> is the exact
  difference, and beyond that need not be: \<open>9007199254740994 - 1\<close> is
  \<open>9007199254740992\<close>. The resolved phase is the phase of the response and of the stored step
  whenever \<open>processStep\<close> answers with a response, and it is the same for any server
  with the same stored steps and any input with the same \<open>stepNumber\<close> and the same
  presence of \<open>toolCall\<close>.
\<close>

theorem inferred_phase:
  assumes "validateInput input = Inr ()" and "\<not> truthy_str (phase input)"
  shows "\<exists>n. stepNumber input = Num n \<and> 1 \<le> n \<and>
     inferPhase srv input =
       (if toolCall input \<noteq> None then ''tool_call''
        else case find (\<lambda>s. stepNumber s = js_minus (Num n) (Num 1)) (steps (stateManager srv)) of
               Some s \<Rightarrow> if phase s = Some ''tool_call'' then ''analysis'' else ''thinking''
             | None \<Rightarrow> ''thinking'') \<and>
     js_minus (Num n) (Num 1) = Num (roundDouble (n - 1)) \<and>
     (n \<in> \<int> \<and> n \<le> 2 ^ 53 \<longrightarrow> js_minus (Num n) (Num 1) = Num (n - 1)) \<and>
     js_minus (Num 9007199254740994) (Num 1) = Num 9007199254740992 \<and>
     (\<forall>resp srv'.
        processStep js srv input ev = (\<lparr>content = Response resp, isError = None\<rparr>, srv') \<longrightarrow>
        StepResponse.phase resp = Some (inferPhase srv input) \<and>
        (\<exists>stored. steps (stateManager srv') = steps (stateManager srv) @ [stored] \<and>
           phase stored = Some (inferPhase srv input))) \<and>
     (\<forall>srv2 input2.
        steps (stateManager srv2) = steps (stateManager srv) \<and>
        stepNumber input2 = stepNumber input \<and>
        (toolCall input2 = None \<longleftrightarrow> toolCall input = None) \<and>
        \<not> truthy_str (phase input2) \<longrightarrow>
        inferPhase srv2 input2 = inferPhase srv input)"
proof -
  from validateInput_Inr [OF assms(1)] obtain n where n: "stepNumber input = Num n" "1 \<le> n"
    by blast
  have a: "inferPhase srv input =
       (if toolCall input \<noteq> None then ''tool_call''
        else case find (\<lambda>s. stepNumber s = js_minus (Num n) (Num 1)) (steps (stateManager srv)) of
               Some s \<Rightarrow> if phase s = Some ''tool_call'' then ''analysis'' else ''thinking''
             | None \<Rightarrow> ''thinking'')"
    using inferPhase_spec [OF n(1) assms(2), of srv] by simp
  have r: "js_minus (Num n) (Num 1) = Num (roundDouble (n - 1))"
    by simp
  have x: "js_minus (Num n) (Num 1) = Num (n - 1)" if "n \<in> \<int> \<and> n \<le> 2 ^ 53"
  proof -
    from that n(2) have "n - 1 \<in> \<int>" "0 \<le> n - 1" "n - 1 < 2 ^ 53"
      by simp_all
    then have "roundDouble (n - 1) = n - 1"
      by (rule roundDouble_exact)
    then show ?thesis by simp
  qed
  have "roundDouble 9007199254740993 = 9007199254740992"
    by code_simp
  then have y: "js_minus (Num 9007199254740994) (Num 1) = Num 9007199254740992"
    by simp
  have b: "StepResponse.phase resp = Some (inferPhase srv input) \<and>
        (\<exists>stored. steps (stateManager srv') = steps (stateManager srv) @ [stored] \<and>
           phase stored = Some (inferPhase srv input))"
    if "processStep js srv input ev = (\<lparr>content = Response resp, isError = None\<rparr>, srv')"
    for resp srv'
    using processStep_Response [OF assms(1) that] by auto
  have c: "inferPhase srv2 input2 = inferPhase srv input"
    if "steps (stateManager srv2) = steps (stateManager srv) \<and>
        stepNumber input2 = stepNumber input \<and>
        (toolCall input2 = None \<longleftrightarrow> toolCall input = None) \<and>
        \<not> truthy_str (phase input2)"
    for srv2 :: "'a InterleavedThinkingServer" and input2
  proof -
    from that n have "stepNumber input2 = Num n" by simp
    from inferPhase_spec [OF this, of srv2] that a show ?thesis by simp
  qed
  from n a r x y b c show ?thesis by blast
qed

theorem inferred_phase_witness:
  "validateInput (exampleStep (Num 3) (Num 3) None None) = Inr () \<and>
   \<not> truthy_str (phase (exampleStep (Num 3) (Num 3) None None)) \<and>
   inferPhase exampleServerAfterCall (exampleStep (Num 3) (Num 3) None None) = ''analysis'' \<and>
   inferPhase exampleServer (exampleStep (Num 3) (Num 3) None None) = ''thinking''"
proof -
  have h1: "validateInput (exampleStep (Num 3) (Num 3) None None) = Inr ()"
    by (simp add: validateInput_def exampleStep_def)
  have h2: "\<not> truthy_str (phase (exampleStep (Num 3) (Num 3) None None))"
    by (simp add: exampleStep_def)
  have i: "(3::rat) \<in> \<int> \<and> (3::rat) \<le> 2 ^ 53"
    by simp
  from inferred_phase [OF h1 h2, of exampleServerAfterCall exampleHost "exampleEnv ExecutorResolves"]
  obtain n where n: "stepNumber (exampleStep (Num 3) (Num 3) None None) = Num n"
    and p: "inferPhase exampleServerAfterCall (exampleStep (Num 3) (Num 3) None None) =
       (if toolCall (exampleStep (Num 3) (Num 3) None None) \<noteq> None then ''tool_call''
        else case find (\<lambda>s. stepNumber s = js_minus (Num n) (Num 1))
                    (steps (stateManager exampleServerAfterCall)) of
               Some s \<Rightarrow> if phase s = Some ''tool_call'' then ''analysis'' else ''thinking''
             | None \<Rightarrow> ''thinking'')"
    and e: "n \<in> \<int> \<and> n \<le> 2 ^ 53 \<longrightarrow> js_minus (Num n) (Num 1) = Num (n - 1)"
    by blast
  from n have n3: "n = 3" by (simp add: exampleStep_def)
  with e i have m: "js_minus (Num n) (Num 1) = Num 2" by simp
  from p have a: "inferPhase exampleServerAfterCall (exampleStep (Num 3) (Num 3) None None) =
      ''analysis''"
    unfolding m by (simp add: exampleServerAfterCall_eq exampleStep_def)
  from inferred_phase [OF h1 h2, of exampleServer exampleHost "exampleEnv ExecutorResolves"]
  have b: "inferPhase exampleServer (exampleStep (Num 3) (Num 3) None None) = ''thinking''"
    by (auto simp: exampleServer_def new_InterleavedThinkingServer_def new_StateManager_def
        exampleStep_def)
  from h1 h2 a b show ?thesis by blast
qed

section \<open>The stored totalSteps\<close>

text \<open>
  Two thinking steps on a new server, the first with \<open>totalSteps = 10\<close>, the second
  with \<open>stepNumber = 2\<close> and \<open>totalSteps = 3\<close>: the second is stored and answered with
  \<open>totalSteps = 3\<close>, below the 10 of the step before it.
\<close>

theorem totalSteps_can_decrease:
  "fst (processSteps exampleHost exampleServer
     [(exampleStep (Num 1) (Num 10) (Some ''thinking'') None, exampleEnv ExecutorResolves),
      (exampleStep (Num 2) (Num 3) (Some ''thinking'') None, exampleEnv ExecutorResolves)]) =
   [\<lparr>content = Response
        \<lparr>StepResponse.stepNumber = Num 1, StepResponse.totalSteps = Num 10,
         StepResponse.nextStepNeeded = Some True, StepResponse.branches = {},
         stepHistoryLength = 1, StepResponse.phase = Some ''thinking'',
         StepResponse.toolResult = None\<rparr>,
      isError = None\<rparr>,
    \<lparr>content = Response
        \<lparr>StepResponse.stepNumber = Num 2, StepResponse.totalSteps = Num 3,
         StepResponse.nextStepNeeded = Some True, StepResponse.branches = {},
         stepHistoryLength = 2, StepResponse.phase = Some ''thinking'',
         StepResponse.toolResult = None\<rparr>,
      isError = None\<rparr>] \<and>
   map totalSteps (steps (stateManager (snd (processSteps exampleHost exampleServer
     [(exampleStep (Num 1) (Num 10) (Some ''thinking'') None, exampleEnv ExecutorResolves),
      (exampleStep (Num 2) (Num 3) (Some ''thinking'') None, exampleEnv ExecutorResolves)])))) =
   [Num 10, Num 3] \<and>
   Num 3 \<noteq> Num (max (max 3 2) 10)"
  by (simp add: example_defs)

text \<open>
  Claim C2, as amended: for every step that passes validation, the \<open>totalSteps\<close>
  stored with the step and echoed in its response is the larger of the step's own
  \<open>totalSteps\<close> and \<open>stepNumber\<close>. It does not depend on the steps before it. (When
  the answer is an error payload, either nothing was stored or the stored step has
  this same value.)
\<close>

theorem stored_totalSteps:
  assumes "validateInput input = Inr ()"
  shows "\<exists>n t. stepNumber input = Num n \<and> totalSteps input = Num t \<and>
     (case content (fst (processStep js srv input ev)) of
        Response resp \<Rightarrow>
          StepResponse.totalSteps resp = Num (max t n) \<and>
          (\<exists>stored. steps (stateManager (snd (processStep js srv input ev))) =
                      steps (stateManager srv) @ [stored] \<and>
                    totalSteps stored = Num (max t n))
      | Failure x \<Rightarrow>
          steps (stateManager (snd (processStep js srv input ev))) = steps (stateManager srv) \<or>
          (\<exists>stored. steps (stateManager (snd (processStep js srv input ev))) =
                      steps (stateManager srv) @ [stored] \<and>
                    totalSteps stored = Num (max t n)))"
proof -
  let ?res = "fst (processStep js srv input ev)"
  let ?srv' = "snd (processStep js srv input ev)"
  from validateInput_Inr [OF assms] obtain n t where
    nt: "stepNumber input = Num n" "totalSteps input = Num t" by blast
  then have m: "totalSteps (resolveStep srv input) = Num (max t n)"
    by (rule totalSteps_resolveStep)
  have r: "processStep js srv input ev = (?res, ?srv')"
    by simp
  have "case content ?res of
        Response resp \<Rightarrow>
          StepResponse.totalSteps resp = Num (max t n) \<and>
          (\<exists>stored. steps (stateManager ?srv') = steps (stateManager srv) @ [stored] \<and>
                    totalSteps stored = Num (max t n))
      | Failure x \<Rightarrow>
          steps (stateManager ?srv') = steps (stateManager srv) \<or>
          (\<exists>stored. steps (stateManager ?srv') = steps (stateManager srv) @ [stored] \<and>
                    totalSteps stored = Num (max t n))"
  proof (cases "content ?res")
    case (Response resp)
    from processStep_cases [of js srv input ev] Response
    have "?res = \<lparr>content = Response resp, isError = None\<rparr>"
      by (auto simp: handleError_def)
    with r have "processStep js srv input ev = (\<lparr>content = Response resp, isError = None\<rparr>, ?srv')"
      by simp
    from processStep_Response [OF assms this] m Response
    show ?thesis by auto
  next
    case (Failure x)
    with processStep_Failure [OF assms r Failure] m show ?thesis by auto
  qed
  with nt show ?thesis by blast
qed

theorem stored_totalSteps_witness:
  "validateInput (exampleStep (Num 5) (Num 3) (Some ''thinking'') None) = Inr () \<and>
   (\<exists>resp. content (fst (processStep exampleHost exampleServer
       (exampleStep (Num 5) (Num 3) (Some ''thinking'') None) (exampleEnv ExecutorResolves))) =
       Response resp \<and> StepResponse.totalSteps resp = Num 5)"
proof -
  have h: "validateInput (exampleStep (Num 5) (Num 3) (Some ''thinking'') None) = Inr ()"
    by (simp add: validateInput_def exampleStep_def)
  obtain resp where r: "content (fst (processStep exampleHost exampleServer
       (exampleStep (Num 5) (Num 3) (Some ''thinking'') None) (exampleEnv ExecutorResolves))) =
       Response resp"
    by (simp add: example_defs)
  from stored_totalSteps [OF h, of exampleHost exampleServer "exampleEnv ExecutorResolves"]
  obtain n t where nt: "stepNumber (exampleStep (Num 5) (Num 3) (Some ''thinking'') None) = Num n"
      "totalSteps (exampleStep (Num 5) (Num 3) (Some ''thinking'') None) = Num t"
    and c: "case content (fst (processStep exampleHost exampleServer
       (exampleStep (Num 5) (Num 3) (Some ''thinking'') None) (exampleEnv ExecutorResolves))) of
        Response resp \<Rightarrow> StepResponse.totalSteps resp = Num (max t n) \<and>
          (\<exists>stored. steps (stateManager (snd (processStep exampleHost exampleServer
       (exampleStep (Num 5) (Num 3) (Some ''thinking'') None) (exampleEnv ExecutorResolves)))) =
                      steps (stateManager exampleServer) @ [stored] \<and>
                    totalSteps stored = Num (max t n))
      | Failure x \<Rightarrow>
          steps (stateManager (snd (processStep exampleHost exampleServer
       (exampleStep (Num 5) (Num 3) (Some ''thinking'') None) (exampleEnv ExecutorResolves)))) = steps (stateManager exampleServer) \<or>
          (\<exists>stored. steps (stateManager (snd (processStep exampleHost exampleServer
       (exampleStep (Num 5) (Num 3) (Some ''thinking'') None) (exampleEnv ExecutorResolves)))) =
                      steps (stateManager exampleServer) @ [stored] \<and>
                    totalSteps stored = Num (max t n))"
    by blast
  from nt have "n = 5" "t = 3" by (simp_all add: exampleStep_def)
  with c r have "StepResponse.totalSteps resp = Num 5" by simp
  with r h show ?thesis by blast
qed

section \<open>Validation of the step number\<close>

text \<open>
  Claim C4 says that an input whose \<open>stepNumber\<close> is absent or is not an integer of at
  least 1 is answered with an error payload of type \<open>ValidationError\<close> and the message
  \<open>stepNumber must be a positive integer\<close>, with no state changed. At \<open>stepNumber = 0\<close>
  the code does answer with this message, but under the type \<open>Error\<close>: the message has
  none of the three substrings that \<open>handleError\<close> looks for. And \<open>stepNumber = 1.5\<close>
  passes \<open>validateInput\<close>, which tests truthiness and \<open>< 1\<close> only: the step is stored
  and answered as a thinking step.
\<close>

theorem stepNumber_zero_is_plain_Error:
  "fst (processStep exampleHost exampleServer (exampleStep (Num 0) (Num 3) None None)
          (exampleEnv ExecutorResolves)) =
     \<lparr>content = Failure
        \<lparr>ErrorResponse.error =
           \<lparr>type = ''Error'', message = ''stepNumber must be a positive integer'',
            recoveryStrategy = Some ''Check input parameters and try again''\<rparr>,
         status = ''failed''\<rparr>,
      isError = Some True\<rparr> \<and>
   fst (processStep exampleHost exampleServer (exampleStep (Num (3/2)) (Num 3) None None)
          (exampleEnv ExecutorResolves)) =
     \<lparr>content = Response
        \<lparr>StepResponse.stepNumber = Num (3/2), StepResponse.totalSteps = Num 3,
         StepResponse.nextStepNeeded = Some True, StepResponse.branches = {},
         stepHistoryLength = 1, StepResponse.phase = Some ''thinking'',
         StepResponse.toolResult = None\<rparr>,
      isError = None\<rparr> \<and>
   steps (stateManager (snd (processStep exampleHost exampleServer
          (exampleStep (Num (3/2)) (Num 3) None None) (exampleEnv ExecutorResolves)))) =
     [exampleStep (Num (3/2)) (Num 3) (Some ''thinking'') None]"
  by (simp add: example_defs)

text \<open>
  The two other messages of this kind contain \<open>required\<close>, and so have the type that
  the message about \<open>stepNumber\<close> misses: a step without \<open>nextStepNeeded\<close> is answered
  with a \<open>ValidationError\<close>.
\<close>

lemma nextStepNeeded_missing_is_ValidationError:
  "fst (processStep exampleHost exampleServer
          ((exampleStep (Num 1) (Num 3) None None)\<lparr>nextStepNeeded := None\<rparr>)
          (exampleEnv ExecutorResolves)) =
     \<lparr>content = Failure
        \<lparr>ErrorResponse.error =
           \<lparr>type = ''ValidationError'', message = ''nextStepNeeded is required'',
            recoveryStrategy = Some ''Provide all required fields''\<rparr>,
         status = ''failed''\<rparr>,
      isError = Some True\<rparr>"
  by (simp add: example_defs)

text \<open>
  What the code does with every input whose \<open>stepNumber\<close> is absent, \<open>NaN\<close>, zero or
  any number below 1: \<open>processStep\<close> returns the error payload with the type \<open>Error\<close>
  and the message \<open>stepNumber must be a positive integer\<close>, flagged \<open>isError\<close>, and the
  server is exactly as before.
\<close>

lemma stepNumber_rejected:
  assumes "\<not> truthy (stepNumber input) \<or> js_lt (stepNumber input) (Num 1)"
  shows "processStep js srv input ev =
     (\<lparr>content = Failure
        \<lparr>ErrorResponse.error =
           \<lparr>type = ''Error'', message = ''stepNumber must be a positive integer'',
            recoveryStrategy = Some ''Check input parameters and try again''\<rparr>,
         status = ''failed''\<rparr>,
      isError = Some True\<rparr>, srv)"
  using assms
  by (simp only: processStep_invalid [OF validateInput_stepNumber] handleError_stepNumber)

section \<open>Rejected steps\<close>

text \<open>
  Claim C7: a step that validation rejects, or a step whose resolved phase is
  \<open>tool_call\<close> and that has no \<open>toolCall\<close>, is answered with an error envelope and
  leaves the server unchanged. So \<open>getHistory\<close> gives what it gave before, and every
  later step is processed as if the rejected one had never been submitted.
\<close>

theorem rejected_step_leaves_no_trace:
  assumes "(\<exists>e. validateInput input = Inl e) \<or>
           (inferPhase srv input = ''tool_call'' \<and> toolCall input = None)"
  shows "snd (processStep js srv input ev) = srv \<and>
         getHistory (snd (processStep js srv input ev)) = getHistory srv \<and>
         isError (fst (processStep js srv input ev)) = Some True \<and>
         processSteps js (snd (processStep js srv input ev)) later =
           processSteps js srv later"
proof -
  have "\<exists>e. processStep js srv input ev = (handleError e, srv)"
  proof (cases "validateInput input")
    case (Inl e)
    then show ?thesis by (auto simp: processStep_invalid)
  next
    case (Inr u)
    with assms show ?thesis by (auto simp: processStep_missing_toolCall)
  qed
  then show ?thesis by (auto simp: handleError_def)
qed

theorem rejected_step_leaves_no_trace_witness:
  "inferPhase exampleServer (exampleStep (Num 1) (Num 1) (Some ''tool_call'') None) = ''tool_call'' \<and>
   toolCall (exampleStep (Num 1) (Num 1) (Some ''tool_call'') None) = None \<and>
   snd (processStep exampleHost exampleServer (exampleStep (Num 1) (Num 1) (Some ''tool_call'') None)
          (exampleEnv ExecutorResolves)) = exampleServer \<and>
   getHistory (snd (processStep exampleHost exampleServer
          (exampleStep (Num 1) (Num 1) (Some ''tool_call'') None) (exampleEnv ExecutorResolves))) =
     getHistory exampleServer \<and>
   isError (fst (processStep exampleHost exampleServer
          (exampleStep (Num 1) (Num 1) (Some ''tool_call'') None) (exampleEnv ExecutorResolves))) =
     Some True"
proof -
  have h: "inferPhase exampleServer (exampleStep (Num 1) (Num 1) (Some ''tool_call'') None) =
             ''tool_call'' \<and>
           toolCall (exampleStep (Num 1) (Num 1) (Some ''tool_call'') None) = None"
    by (simp add: inferPhase_def exampleStep_def)
  from h rejected_step_leaves_no_trace [of "exampleStep (Num 1) (Num 1) (Some ''tool_call'') None"
      exampleServer exampleHost "exampleEnv ExecutorResolves" "[]"]
  show ?thesis by blast
qed

section \<open>No exception leaves processStep\<close>

text \<open>
  Claim C8: \<open>processStep\<close> returns an envelope for every input, and every value thrown
  inside its \<open>try\<close> block is converted into the uniform error payload. Whenever the
  block throws \<open>e\<close>, at a server state \<open>srv'\<close>, \<open>processStep\<close> returns, with that state,
  the envelope flagged \<open>isError\<close> whose payload has the status \<open>failed\<close> and an \<open>error\<close>
  made of: the message of \<open>e\<close> (its \<open>message\<close> when it is an \<open>Error\<close>, its string form
  otherwise); the type \<open>ToolCallLimitError\<close>, \<open>TimeoutError\<close> or \<open>ValidationError\<close> when
  the message contains \<open>limit reached\<close>, \<open>timeout\<close> or \<open>required\<close>, tried in this order,
  and \<open>Error\<close> otherwise; and the recovery strategy that goes with the type. Whenever
  the block returns, \<open>processStep\<close> returns the same envelope: a response, not flagged.
  And the block does throw at each of the places the claim names: when validation
  fails, when a resolved \<open>tool_call\<close> step has no \<open>toolCall\<close>, when the logging of the
  call or the tool invocation throws, and when the commit to the history throws.
\<close>

theorem processStep_never_throws:
  "(\<forall>e srv'. processStep_try js srv input ev = Inl (e, srv') \<longrightarrow>
      (let msg = (case e of Error m \<Rightarrow> m | NonError s \<Rightarrow> s) in
       processStep js srv input ev =
         (\<lparr>content = Failure
            \<lparr>ErrorResponse.error =
               \<lparr>type =
                  (if str_includes msg ''limit reached'' then ''ToolCallLimitError''
                   else if str_includes msg ''timeout'' then ''TimeoutError''
                   else if str_includes msg ''required'' then ''ValidationError''
                   else ''Error''),
                message = msg,
                recoveryStrategy = Some
                  (if str_includes msg ''limit reached''
                   then ''Summarize progress and terminate or reset the server''
                   else if str_includes msg ''timeout''
                   then ''Use simpler tool or increase timeout''
                   else if str_includes msg ''required''
                   then ''Provide all required fields''
                   else ''Check input parameters and try again'')\<rparr>,
             status = ''failed''\<rparr>,
           isError = Some True\<rparr>, srv'))) \<and>
   (\<forall>res srv'. processStep_try js srv input ev = Inr (res, srv') \<longrightarrow>
      processStep js srv input ev = (res, srv') \<and> isError res = None \<and>
      (\<exists>resp. content res = Response resp)) \<and>
   (\<forall>e. validateInput input = Inl e \<longrightarrow> processStep_try js srv input ev = Inl (e, srv)) \<and>
   (validateInput input = Inr () \<and> inferPhase srv input = ''tool_call'' \<and>
    toolCall input = None \<longrightarrow>
      processStep_try js srv input ev =
        Inl (Error ''toolCall is required for tool_call phase'', srv)) \<and>
   (\<forall>tc e. validateInput input = Inr () \<and> inferPhase srv input = ''tool_call'' \<and>
      toolCall input = Some tc \<and> logToolCall (logger srv) js tc = Inl e \<longrightarrow>
      processStep_try js srv input ev = Inl (e, srv)) \<and>
   (\<forall>tc e m. validateInput input = Inr () \<and> inferPhase srv input = ''tool_call'' \<and>
      toolCall input = Some tc \<and> logToolCall (logger srv) js tc = Inr () \<and>
      executeToolCall js (toolCallManager srv) tc ev = Inl (e, m) \<longrightarrow>
      processStep_try js srv input ev = Inl (e, srv\<lparr>toolCallManager := m\<rparr>)) \<and>
   (\<forall>tr stored srv1 e sm. validateInput input = Inr () \<and>
      processPhase js srv (resolveStep srv input) ev = Inr (tr, stored, srv1) \<and>
      addStep (stateManager srv1) stored = Inl (e, sm) \<longrightarrow>
      processStep_try js srv input ev = Inl (e, srv1\<lparr>stateManager := sm\<rparr>))"
proof -
  have a: "\<forall>e srv'. processStep_try js srv input ev = Inl (e, srv') \<longrightarrow>
      (let msg = (case e of Error m \<Rightarrow> m | NonError s \<Rightarrow> s) in
       processStep js srv input ev =
         (\<lparr>content = Failure
            \<lparr>ErrorResponse.error =
               \<lparr>type =
                  (if str_includes msg ''limit reached'' then ''ToolCallLimitError''
                   else if str_includes msg ''timeout'' then ''TimeoutError''
                   else if str_includes msg ''required'' then ''ValidationError''
                   else ''Error''),
                message = msg,
                recoveryStrategy = Some
                  (if str_includes msg ''limit reached''
                   then ''Summarize progress and terminate or reset the server''
                   else if str_includes msg ''timeout''
                   then ''Use simpler tool or increase timeout''
                   else if str_includes msg ''required''
                   then ''Provide all required fields''
                   else ''Check input parameters and try again'')\<rparr>,
             status = ''failed''\<rparr>,
           isError = Some True\<rparr>, srv'))"
    by (simp add: processStep_def handleError_def errorMessage_def Let_def)
  have b: "\<forall>res srv'. processStep_try js srv input ev = Inr (res, srv') \<longrightarrow>
      processStep js srv input ev = (res, srv') \<and> isError res = None \<and>
      (\<exists>resp. content res = Response resp)"
    by (auto simp: processStep_def processStep_try_def split: sum.splits prod.splits)
  have c: "\<forall>e. validateInput input = Inl e \<longrightarrow> processStep_try js srv input ev = Inl (e, srv)"
    by (simp add: processStep_try_def)
  have d: "validateInput input = Inr () \<and> inferPhase srv input = ''tool_call'' \<and>
    toolCall input = None \<longrightarrow>
      processStep_try js srv input ev =
        Inl (Error ''toolCall is required for tool_call phase'', srv)"
    by (simp add: processStep_try_missing_toolCall)
  have ph: "phase (resolveStep srv input) = Some (inferPhase srv input)"
    by (rule phase_resolveStep)
  have e: "\<forall>tc e. validateInput input = Inr () \<and> inferPhase srv input = ''tool_call'' \<and>
      toolCall input = Some tc \<and> logToolCall (logger srv) js tc = Inl e \<longrightarrow>
      processStep_try js srv input ev = Inl (e, srv)"
    using ph by (simp add: processStep_try_def processPhase_def)
  have f: "\<forall>tc e m. validateInput input = Inr () \<and> inferPhase srv input = ''tool_call'' \<and>
      toolCall input = Some tc \<and> logToolCall (logger srv) js tc = Inr () \<and>
      executeToolCall js (toolCallManager srv) tc ev = Inl (e, m) \<longrightarrow>
      processStep_try js srv input ev = Inl (e, srv\<lparr>toolCallManager := m\<rparr>)"
    using ph by (simp add: processStep_try_def processPhase_def)
  have g: "\<forall>tr stored srv1 e sm. validateInput input = Inr () \<and>
      processPhase js srv (resolveStep srv input) ev = Inr (tr, stored, srv1) \<and>
      addStep (stateManager srv1) stored = Inl (e, sm) \<longrightarrow>
      processStep_try js srv input ev = Inl (e, srv1\<lparr>stateManager := sm\<rparr>)"
    by (simp add: processStep_try_def)
  from a b c d e f g show ?thesis by blast
qed

theorem processStep_never_throws_witness:
  "processStep_try exampleHost exampleServerAfterCall
     (exampleStep (Num 3) (Num 3) None (Some (exampleToolCall None)))
     (exampleEnv ExecutorResolves) =
     Inl (Error ''Tool call limit reached'', exampleServerAfterCall) \<and>
   processStep exampleHost exampleServerAfterCall
     (exampleStep (Num 3) (Num 3) None (Some (exampleToolCall None)))
     (exampleEnv ExecutorResolves) =
     (\<lparr>content = Failure
        \<lparr>ErrorResponse.error =
           \<lparr>type = ''ToolCallLimitError'', message = ''Tool call limit reached'',
            recoveryStrategy = Some ''Summarize progress and terminate or reset the server''\<rparr>,
         status = ''failed''\<rparr>,
       isError = Some True\<rparr>, exampleServerAfterCall) \<and>
   processStep_try exampleHost defaultServer
     (exampleStep (Num 1) (Num 3) None (Some cyclicToolCall)) (exampleEnv ExecutorResolves) =
     Inl (Error ''Converting circular structure to JSON'', defaultServer) \<and>
   processStep exampleHost defaultServer
     (exampleStep (Num 1) (Num 3) None (Some cyclicToolCall)) (exampleEnv ExecutorResolves) =
     (\<lparr>content = Failure
        \<lparr>ErrorResponse.error =
           \<lparr>type = ''Error'', message = ''Converting circular structure to JSON'',
            recoveryStrategy = Some ''Check input parameters and try again''\<rparr>,
         status = ''failed''\<rparr>,
       isError = Some True\<rparr>, defaultServer)"
proof -
  have h1: "processStep_try exampleHost exampleServerAfterCall
     (exampleStep (Num 3) (Num 3) None (Some (exampleToolCall None)))
     (exampleEnv ExecutorResolves) =
     Inl (Error ''Tool call limit reached'', exampleServerAfterCall)"
    by (simp add: exampleServerAfterCall_eq)
       (simp add: processStep_try_def validateInput_def exampleStep_def resolveStep_def
          inferPhase_def processPhase_def logToolCall_def executeToolCall_def
          canExecuteToolCall_def)
  have h2: "processStep_try exampleHost defaultServer
     (exampleStep (Num 1) (Num 3) None (Some cyclicToolCall)) (exampleEnv ExecutorResolves) =
     Inl (Error ''Converting circular structure to JSON'', defaultServer)"
    by (simp add: defaultServer_def processStep_try_def validateInput_def exampleStep_def
        resolveStep_def inferPhase_def processPhase_def logToolCall_def exampleHost_def
        cyclicToolCall_def new_InterleavedThinkingServer_def)
  from processStep_never_throws [of exampleHost exampleServerAfterCall
      "exampleStep (Num 3) (Num 3) None (Some (exampleToolCall None))"
      "exampleEnv ExecutorResolves"] h1
  have a: "processStep exampleHost exampleServerAfterCall
     (exampleStep (Num 3) (Num 3) None (Some (exampleToolCall None)))
     (exampleEnv ExecutorResolves) =
     (\<lparr>content = Failure
        \<lparr>ErrorResponse.error =
           \<lparr>type = ''ToolCallLimitError'', message = ''Tool call limit reached'',
            recoveryStrategy = Some ''Summarize progress and terminate or reset the server''\<rparr>,
         status = ''failed''\<rparr>,
       isError = Some True\<rparr>, exampleServerAfterCall)"
    by (simp add: Let_def)
  from processStep_never_throws [of exampleHost defaultServer
      "exampleStep (Num 1) (Num 3) None (Some cyclicToolCall)" "exampleEnv ExecutorResolves"] h2
  have b: "processStep exampleHost defaultServer
     (exampleStep (Num 1) (Num 3) None (Some cyclicToolCall)) (exampleEnv ExecutorResolves) =
     (\<lparr>content = Failure
        \<lparr>ErrorResponse.error =
           \<lparr>type = ''Error'', message = ''Converting circular structure to JSON'',
            recoveryStrategy = Some ''Check input parameters and try again''\<rparr>,
         status = ''failed''\<rparr>,
       isError = Some True\<rparr>, defaultServer)"
    by (simp add: Let_def)
  from h1 a h2 b show ?thesis by blast
qed

section \<open>The tool call budget\<close>

lemma logToolCall_Inr:
  "disableLogging lg \<or> (\<exists>s. stringify js (parameters tc) = Inr s) \<Longrightarrow>
   logToolCall lg js tc = Inr ()"
  by (auto simp: logToolCall_def)

lemma invocationsIssued_exhausted:
  assumes "\<not> canExecuteToolCall (toolCallManager srv)"
  shows "invocationsIssued js srv xs = 0"
  using processSteps_callCount [of js srv xs] processSteps_exhausted [OF assms, of js xs]
  by simp

lemma processSteps_budget_spent:
  assumes "callCount (toolCallManager srv0) = 0"
    and "maxToolCalls (toolCallManager srv0) = int N"
    and "invocationsIssued js srv0 xs = N"
  shows "\<not> canExecuteToolCall (toolCallManager (snd (processSteps js srv0 xs)))"
  using processSteps_callCount [of js srv0 xs] processSteps_manager_frame [of js srv0 xs] assms
  by (simp add: canExecuteToolCall_def)

lemma processSteps_limit:
  assumes "\<not> canExecuteToolCall (toolCallManager srv)"
    and "i < length xs" and "xs ! i = (input, ev)"
    and "validateInput input = Inr ()" and "toolCall input = Some tc"
    and "\<not> truthy_str (phase input) \<or> phase input = Some ''tool_call''"
    and "logToolCall (logger srv) js tc = Inr ()"
  shows "fst (processSteps js srv xs) ! i = handleError (Error ''Tool call limit reached'')"
  using assms(1-3,7)
proof (induction xs arbitrary: srv i)
  case Nil
  then show ?case by simp
next
  case (Cons x xs)
  obtain input' ev' where x: "x = (input', ev')" by (cases x)
  obtain res srv1 where p: "processStep js srv input' ev' = (res, srv1)"
    by (cases "processStep js srv input' ev'")
  obtain ress srv2 where q: "processSteps js srv1 xs = (ress, srv2)"
    by (cases "processSteps js srv1 xs")
  from processStep_exhausted [OF Cons.prems(1), of js input' ev'] p Cons.prems(1)
  have ex: "\<not> canExecuteToolCall (toolCallManager srv1)" by simp
  from processStep_logger [of js srv input' ev'] p Cons.prems(4)
  have lg: "logToolCall (logger srv1) js tc = Inr ()" by simp
  show ?case
  proof (cases i)
    case 0
    with Cons.prems x have "input' = input" "ev' = ev" by simp_all
    moreover from assms(5,6) have "inferPhase srv input = ''tool_call''"
      by (intro inferPhase_toolCall) simp_all
    ultimately have "res = handleError (Error ''Tool call limit reached'')"
      using processStep_limit [OF Cons.prems(1) assms(4,5) _ Cons.prems(4), of ev] p by simp
    with 0 x p q show ?thesis by simp
  next
    case (Suc j)
    with Cons.prems have "j < length xs" "xs ! j = (input, ev)" by simp_all
    from Cons.IH [OF ex this lg] Suc x p q show ?thesis by simp
  qed
qed

text \<open>
  The example server allows one tool call, and the session has issued one. A step
  that names the phase \<open>tool_call\<close> and has no \<open>toolCall\<close> is then answered with a
  \<open>ValidationError\<close>: the test for the missing field comes before the manager is
  asked.
\<close>

theorem toolCall_missing_after_budget:
  "maxToolCalls (toolCallManager exampleServer) = 1 \<and>
   invocationsIssued exampleHost exampleServer
     [(exampleStep (Num 2) (Num 3) None (Some (exampleToolCall None)),
       exampleEnv ExecutorResolves)] = 1 \<and>
   snd (processSteps exampleHost exampleServer
     [(exampleStep (Num 2) (Num 3) None (Some (exampleToolCall None)),
       exampleEnv ExecutorResolves)]) = exampleServerAfterCall \<and>
   callCount (toolCallManager exampleServerAfterCall) = 1 \<and>
   fst (processStep exampleHost exampleServerAfterCall
          (exampleStep (Num 3) (Num 3) (Some ''tool_call'') None) (exampleEnv ExecutorResolves)) =
     \<lparr>content = Failure
        \<lparr>ErrorResponse.error =
           \<lparr>type = ''ValidationError'', message = ''toolCall is required for tool_call phase'',
            recoveryStrategy = Some ''Provide all required fields''\<rparr>,
         status = ''failed''\<rparr>,
      isError = Some True\<rparr>"
proof -
  have a: "maxToolCalls (toolCallManager exampleServer) = 1"
    by (simp add: exampleServer_def exampleConfig_def new_InterleavedThinkingServer_def
        new_ToolCallManager_def)
  have b: "invocationsIssued exampleHost exampleServer
     [(exampleStep (Num 2) (Num 3) None (Some (exampleToolCall None)),
       exampleEnv ExecutorResolves)] = 1"
    by (simp add: issuesInvocation_def validateInput_def exampleStep_def inferPhase_def
        logToolCall_def canExecuteToolCall_def exampleServer_def exampleConfig_def
        new_InterleavedThinkingServer_def new_ToolCallManager_def)
  have c: "callCount (toolCallManager exampleServerAfterCall) = 1"
    by (simp add: exampleServerAfterCall_eq)
  have d: "fst (processStep exampleHost exampleServerAfterCall
          (exampleStep (Num 3) (Num 3) (Some ''tool_call'') None) (exampleEnv ExecutorResolves)) =
     \<lparr>content = Failure
        \<lparr>ErrorResponse.error =
           \<lparr>type = ''ValidationError'', message = ''toolCall is required for tool_call phase'',
            recoveryStrategy = Some ''Provide all required fields''\<rparr>,
         status = ''failed''\<rparr>,
      isError = Some True\<rparr>"
    by (simp add: exampleServerAfterCall_eq)
       (simp add: processStep_def processStep_try_def validateInput_def exampleStep_def
          resolveStep_def inferPhase_def processPhase_def handleError_def errorMessage_def)
  from a b exampleServer_session c d show ?thesis by blast
qed

text \<open>
  Claim C3, as amended: take a session whose call counter is 0 and whose
  \<open>maxToolCalls\<close> is \<open>N\<close>, and steps \<open>xs\<close> in which \<open>N\<close> tool invocations have been
  issued. Then every later step of the session that passes validation, carries a
  \<open>toolCall\<close> that the logger can print (logging is disabled, or the parameters
  serialize) and has no phase or the phase \<open>tool_call\<close>, is answered with the error
  payload of type \<open>ToolCallLimitError\<close>, whatever the race would have given. No
  further invocation is issued, and at the end of the session the manager is what it
  was after \<open>xs\<close>: \<open>executeToolCall\<close> throws on the budget check, before the counter is
  incremented and before any fixture, cache entry or execution is touched.
\<close>

theorem budget_enforced:
  assumes "callCount (toolCallManager srv0) = 0"
    and "maxToolCalls (toolCallManager srv0) = int N"
    and "invocationsIssued js srv0 xs = N"
    and "i < length ys" and "ys ! i = (input, ev)"
    and "validateInput input = Inr ()" and "toolCall input = Some tc"
    and "\<not> truthy_str (phase input) \<or> phase input = Some ''tool_call''"
    and "disableLogging (logger srv0) \<or> (\<exists>s. stringify js (parameters tc) = Inr s)"
  shows "fst (processSteps js (snd (processSteps js srv0 xs)) ys) ! i =
           \<lparr>content = Failure
              \<lparr>ErrorResponse.error =
                 \<lparr>type = ''ToolCallLimitError'', message = ''Tool call limit reached'',
                  recoveryStrategy = Some ''Summarize progress and terminate or reset the server''\<rparr>,
               status = ''failed''\<rparr>,
            isError = Some True\<rparr> \<and>
         invocationsIssued js (snd (processSteps js srv0 xs)) ys = 0 \<and>
         toolCallManager (snd (processSteps js (snd (processSteps js srv0 xs)) ys)) =
           toolCallManager (snd (processSteps js srv0 xs)) \<and>
         callCount (toolCallManager (snd (processSteps js srv0 xs))) = N \<and>
         executeToolCall js (toolCallManager (snd (processSteps js srv0 xs))) tc ev =
           Inl (Error ''Tool call limit reached'', toolCallManager (snd (processSteps js srv0 xs)))"
proof -
  let ?srv = "snd (processSteps js srv0 xs)"
  have ex: "\<not> canExecuteToolCall (toolCallManager ?srv)"
    using assms(1-3) by (rule processSteps_budget_spent)
  from assms(9) have "logToolCall (logger ?srv) js tc = Inr ()"
    by (simp add: logToolCall_Inr)
  from processSteps_limit [OF ex assms(4-8) this]
  have a: "fst (processSteps js ?srv ys) ! i = handleError (Error ''Tool call limit reached'')" .
  have b: "invocationsIssued js ?srv ys = 0"
    using ex by (rule invocationsIssued_exhausted)
  have c: "toolCallManager (snd (processSteps js ?srv ys)) = toolCallManager ?srv"
    using ex by (rule processSteps_exhausted)
  have d: "callCount (toolCallManager ?srv) = N"
    using processSteps_callCount [of js srv0 xs] assms(1,3) by simp
  have e: "executeToolCall js (toolCallManager ?srv) tc ev =
           Inl (Error ''Tool call limit reached'', toolCallManager ?srv)"
    using ex by (rule executeToolCall_exhausted)
  from a b c d e show ?thesis
    by (simp add: handleError_limit)
qed

theorem budget_enforced_witness:
  "callCount (toolCallManager exampleServer) = 0 \<and>
   maxToolCalls (toolCallManager exampleServer) = int 1 \<and>
   invocationsIssued exampleHost exampleServer
     [(exampleStep (Num 2) (Num 3) None (Some (exampleToolCall None)),
       exampleEnv ExecutorResolves)] = 1 \<and>
   validateInput (exampleStep (Num 4) (Num 4) None (Some (exampleToolCall None))) = Inr () \<and>
   disableLogging (logger exampleServer) \<and>
   fst (processSteps exampleHost exampleServerAfterCall
          [(exampleStep (Num 3) (Num 3) None None, exampleEnv ExecutorResolves),
           (exampleStep (Num 4) (Num 4) None (Some (exampleToolCall None)),
            exampleEnv ExecutorResolves)]) ! 1 =
     \<lparr>content = Failure
        \<lparr>ErrorResponse.error =
           \<lparr>type = ''ToolCallLimitError'', message = ''Tool call limit reached'',
            recoveryStrategy = Some ''Summarize progress and terminate or reset the server''\<rparr>,
         status = ''failed''\<rparr>,
      isError = Some True\<rparr> \<and>
   toolCallManager (snd (processSteps exampleHost exampleServerAfterCall
          [(exampleStep (Num 3) (Num 3) None None, exampleEnv ExecutorResolves),
           (exampleStep (Num 4) (Num 4) None (Some (exampleToolCall None)),
            exampleEnv ExecutorResolves)])) =
     toolCallManager exampleServerAfterCall"
proof -
  let ?xs = "[(exampleStep (Num 2) (Num 3) None (Some (exampleToolCall None)),
       exampleEnv ExecutorResolves)]"
  let ?ys = "[(exampleStep (Num 3) (Num 3) None None, exampleEnv ExecutorResolves),
           (exampleStep (Num 4) (Num 4) None (Some (exampleToolCall None)),
            exampleEnv ExecutorResolves)]"
  have h1: "callCount (toolCallManager exampleServer) = 0"
    "maxToolCalls (toolCallManager exampleServer) = int 1"
    by (simp_all add: exampleServer_def exampleConfig_def new_InterleavedThinkingServer_def
        new_ToolCallManager_def)
  have h2: "invocationsIssued exampleHost exampleServer ?xs = 1"
    by (simp add: issuesInvocation_def validateInput_def exampleStep_def inferPhase_def
        logToolCall_def canExecuteToolCall_def exampleServer_def exampleConfig_def
        new_InterleavedThinkingServer_def new_ToolCallManager_def)
  have h3: "1 < length ?ys" by simp
  have h4: "?ys ! 1 = (exampleStep (Num 4) (Num 4) None (Some (exampleToolCall None)),
            exampleEnv ExecutorResolves)" by simp
  have h5: "validateInput (exampleStep (Num 4) (Num 4) None (Some (exampleToolCall None))) = Inr ()"
    by (simp add: validateInput_def exampleStep_def)
  have h6: "toolCall (exampleStep (Num 4) (Num 4) None (Some (exampleToolCall None))) =
      Some (exampleToolCall None)"
    by (simp add: exampleStep_def)
  have h7: "\<not> truthy_str (phase (exampleStep (Num 4) (Num 4) None (Some (exampleToolCall None)))) \<or>
      phase (exampleStep (Num 4) (Num 4) None (Some (exampleToolCall None))) = Some ''tool_call''"
    by (simp add: exampleStep_def)
  have h8: "disableLogging (logger exampleServer)"
    by (simp add: exampleServer_def exampleConfig_def new_InterleavedThinkingServer_def)
  then have h9: "disableLogging (logger exampleServer) \<or>
      (\<exists>s. stringify exampleHost (parameters (exampleToolCall None)) = Inr s)"
    by simp
  from budget_enforced [OF h1 h2 h3 h4 h5 h6 h7 h9] h1 h2 h5 h8 show ?thesis
    unfolding exampleServer_session by simp
qed

section \<open>Failures of an execution\<close>

text \<open>
  Claim C5 says that a call that gets past the budget check never raises an
  exception, the exhausted budget being the only case in which \<open>executeToolCall\<close>
  throws. The manager of the test suite has the cache enabled and admits three
  calls. A first call whose parameters are a cyclic object gets past the budget
  check and is counted; then the key of the cache is computed, outside the \<open>try\<close>
  block, and the \<open>TypeError\<close> of \<open>JSON.stringify\<close> leaves \<open>executeToolCall\<close>. Processed
  as a step, the call is answered with an error payload of type \<open>Error\<close>.
\<close>

theorem executeToolCall_throws_on_cyclic_parameters:
  "canExecuteToolCall exampleManager \<and>
   executeToolCall exampleHost exampleManager cyclicToolCall (exampleEnv ExecutorResolves) =
     Inl (Error ''Converting circular structure to JSON'', exampleManager\<lparr>callCount := 1\<rparr>) \<and>
   processStep exampleHost exampleServer
     (exampleStep (Num 1) (Num 3) None (Some cyclicToolCall)) (exampleEnv ExecutorResolves) =
     (\<lparr>content = Failure
        \<lparr>ErrorResponse.error =
           \<lparr>type = ''Error'', message = ''Converting circular structure to JSON'',
            recoveryStrategy = Some ''Check input parameters and try again''\<rparr>,
         status = ''failed''\<rparr>,
       isError = Some True\<rparr>,
      exampleServer\<lparr>toolCallManager := (toolCallManager exampleServer)\<lparr>callCount := 1\<rparr>\<rparr>)"
proof -
  have a: "canExecuteToolCall exampleManager"
    by (simp add: exampleManager_def new_ToolCallManager_def canExecuteToolCall_def)
  have b: "executeToolCall exampleHost exampleManager cyclicToolCall (exampleEnv ExecutorResolves) =
     Inl (Error ''Converting circular structure to JSON'', exampleManager\<lparr>callCount := 1\<rparr>)"
    by (simp add: executeToolCall_def canExecuteToolCall_def lookupMock_def lookupCache_def
        exampleManager_def new_ToolCallManager_def getCacheKey_def cyclicToolCall_def
        exampleHost_def Let_def)
  have c: "processStep exampleHost exampleServer
     (exampleStep (Num 1) (Num 3) None (Some cyclicToolCall)) (exampleEnv ExecutorResolves) =
     (\<lparr>content = Failure
        \<lparr>ErrorResponse.error =
           \<lparr>type = ''Error'', message = ''Converting circular structure to JSON'',
            recoveryStrategy = Some ''Check input parameters and try again''\<rparr>,
         status = ''failed''\<rparr>,
       isError = Some True\<rparr>,
      exampleServer\<lparr>toolCallManager := (toolCallManager exampleServer)\<lparr>callCount := 1\<rparr>\<rparr>)"
    by (simp add: example_defs)
  from a b c show ?thesis by blast
qed

text \<open>
  What the code does in general. \<open>executeToolCall\<close> throws in two cases: when the
  budget does not admit the call, the error \<open>Tool call limit reached\<close> with the manager
  untouched; and when the budget admits the call, fixtures are present or the cache is
  enabled, and \<open>JSON.stringify\<close> throws on the parameters, what \<open>JSON.stringify\<close>
  threw, with the call counted. A call that the budget admits and whose parameters
  serialize always returns a result. When the race is lost (no fixture and no cache
  entry having answered before), the result is the failure result with
  \<open>success = False\<close>; for a rejection with an \<open>Error\<close> its type is \<open>TimeoutError\<close> when the
  message contains \<open>timeout\<close> and \<open>ToolExecutionError\<close> otherwise, and the rejection of
  the timeout promise has such a message.
\<close>

lemma execution_failures_are_results:
  "(canExecuteToolCall m \<and> (\<exists>s. stringify js (parameters tc) = Inr s) \<longrightarrow>
      (\<exists>r m'. executeToolCall js m tc ev = Inr (r, m'))) \<and>
   (\<forall>e m'. executeToolCall js m tc ev = Inl (e, m') \<longrightarrow>
      (\<not> canExecuteToolCall m \<and> e = Error ''Tool call limit reached'' \<and> m' = m) \<or>
      (canExecuteToolCall m \<and> stringify js (parameters tc) = Inl e \<and>
       (mockResults m \<noteq> None \<or> enableCache m) \<and>
       m' = m\<lparr>callCount := callCount m + 1\<rparr>)) \<and>
   (\<forall>e. canExecuteToolCall m \<and> lookupMock js m tc = Inr None \<and>
        lookupCache js m tc = Inr None \<and>
        promiseRace js (winner ev) tc (effectiveTimeout m tc) = Inl e \<longrightarrow>
      executeToolCall js m tc ev =
        Inr (failureResult tc e ev, m\<lparr>callCount := callCount m + 1\<rparr>) \<and>
      \<not> success (failureResult tc e ev)) \<and>
   (\<forall>msg. error (failureResult tc (Error msg) ev) =
      Some \<lparr>type = (if str_includes msg ''timeout'' then ''TimeoutError''
                     else ''ToolExecutionError''),
            message = msg,
            recoveryStrategy = Some (if str_includes msg ''timeout''
                     then ''Use simpler tool or increase timeout''
                     else ''Retry with adjusted parameters or use alternative tool'')\<rparr>) \<and>
   (\<exists>msg. promiseRace js TimeoutRejects tc (effectiveTimeout m tc) = Inl (Error msg) \<and>
      str_includes msg ''timeout'')"
proof -
  have a: "canExecuteToolCall m \<and> (\<exists>s. stringify js (parameters tc) = Inr s) \<longrightarrow>
      (\<exists>r m'. executeToolCall js m tc ev = Inr (r, m'))"
    by (auto intro!: executeToolCall_Inr_ex simp: getCacheKey_def)
  have b: "\<forall>e m'. executeToolCall js m tc ev = Inl (e, m') \<longrightarrow>
      (\<not> canExecuteToolCall m \<and> e = Error ''Tool call limit reached'' \<and> m' = m) \<or>
      (canExecuteToolCall m \<and> stringify js (parameters tc) = Inl e \<and>
       (mockResults m \<noteq> None \<or> enableCache m) \<and>
       m' = m\<lparr>callCount := callCount m + 1\<rparr>)"
    using executeToolCall_Inl by blast
  have c: "\<forall>e. canExecuteToolCall m \<and> lookupMock js m tc = Inr None \<and>
        lookupCache js m tc = Inr None \<and>
        promiseRace js (winner ev) tc (effectiveTimeout m tc) = Inl e \<longrightarrow>
      executeToolCall js m tc ev =
        Inr (failureResult tc e ev, m\<lparr>callCount := callCount m + 1\<rparr>) \<and>
      \<not> success (failureResult tc e ev)"
    by (simp add: executeToolCall_run failureResult_def)
  have d: "\<forall>msg. error (failureResult tc (Error msg) ev) =
      Some \<lparr>type = (if str_includes msg ''timeout'' then ''TimeoutError''
                     else ''ToolExecutionError''),
            message = msg,
            recoveryStrategy = Some (if str_includes msg ''timeout''
                     then ''Use simpler tool or increase timeout''
                     else ''Retry with adjusted parameters or use alternative tool'')\<rparr>"
    by (simp add: failureResult_def)
  have e: "\<exists>msg. promiseRace js TimeoutRejects tc (effectiveTimeout m tc) = Inl (Error msg) \<and>
      str_includes msg ''timeout''"
    by (simp add: promiseRace_def createTimeoutPromise_includes)
  from a b c d e show ?thesis by blast
qed

text \<open>A call with the timeout of one millisecond that loses the race.\<close>

lemma execution_timeout_example:
  "executeToolCall exampleHost exampleManager (exampleToolCall (Some 1)) (exampleEnv TimeoutRejects) =
     Inr (\<lparr>toolName = ''fetch'', success = False, result = None,
           error = Some \<lparr>type = ''TimeoutError'', message = ''Tool execution timeout after 1ms'',
                         recoveryStrategy = Some ''Use simpler tool or increase timeout''\<rparr>,
           executionTime = 12, timestamp = ''2024-01-01T00:00:00.000Z''\<rparr>,
          exampleManager\<lparr>callCount := 1\<rparr>)"
  by (simp add: executeToolCall_def canExecuteToolCall_def lookupMock_def lookupCache_def
      promiseRace_def exampleManager_def new_ToolCallManager_def exampleEnv_def getCacheKey_def
      exampleToolCall_def exampleHost_def effectiveTimeout_def createTimeoutPromise_def
      failureResult_def includes_timeout_1ms Let_def)

section \<open>The result cache\<close>

lemma getCacheKey_cong:
  "ToolCallData.toolName tc2 = ToolCallData.toolName tc1 \<Longrightarrow>
   stringify js (parameters tc2) = stringify js (parameters tc1) \<Longrightarrow>
   getCacheKey js tc2 = getCacheKey js tc1"
  by (simp add: getCacheKey_def split: sum.splits)

lemma executeToolCall_first_call:
  assumes "enableCache m" and "canExecuteToolCall m" and "lookupMock js m tc = Inr None"
    and "winner ev = ExecutorResolves" and "executeToolCall js m tc ev = Inr (r, m')"
  shows "\<exists>k c. getCacheKey js tc = Inr k \<and> resultCache m' k = Some c \<and>
             (r = c \<or> r = c\<lparr>executionTime := elapsed ev, timestamp := isoNow ev\<rparr>) \<and>
             enableCache m' \<and> mockResults m' = mockResults m"
proof (cases "lookupCache js m tc")
  case (Inl e)
  with assms show ?thesis
    by (simp add: executeToolCall_def Let_def)
next
  case (Inr x)
  from lookupCache_key [OF assms(1) Inr] obtain k where
    k: "getCacheKey js tc = Inr k" "x = resultCache m k" by blast
  show ?thesis
  proof (cases x)
    case None
    with assms Inr k show ?thesis
      by (auto simp: executeToolCall_run promiseRace_def)
  next
    case (Some c)
    with Inr have hit: "lookupCache js m tc = Inr (Some c)" by simp
    from executeToolCall_cached [OF assms(2,3) hit, of ev] assms(5)
    have "r = c" "m' = m\<lparr>callCount := callCount m + 1\<rparr>" by simp_all
    moreover from k(2) Some have "resultCache m k = Some c" by simp
    ultimately show ?thesis using assms(1) k(1) by simp
  qed
qed

lemma executeToolCall_failed_not_cached:
  assumes "executeToolCall js m tc ev = Inr (r, m')"
  shows "(\<not> success r \<longrightarrow> resultCache m' = resultCache m) \<and>
         (resultCache m' = resultCache m \<or>
          (\<exists>k c. getCacheKey js tc = Inr k \<and> success c \<and>
                 resultCache m' = (resultCache m)(k \<mapsto> c)))"
  using assms
  by (auto simp: executeToolCall_def Let_def failureResult_def
      split: if_splits option.splits sum.splits)

text \<open>
  Claim C6: with the cache enabled, take a call that the budget admits, that no
  fixture answers and whose execution, if there is one, resolves. After it the cache
  holds an object under its key; what the call returned is that object, or that
  object with the two stamps. A second admitted call with the same \<open>toolName\<close> and
  the same serialized parameters, whatever its metadata, returns that same object
  for every outcome of the race, and changes nothing but the counter: it does not
  execute. An entry that a call adds to the cache is a successful result, and a call
  that returns a failed result leaves the cache as it was. With the cache disabled,
  every admitted call that no fixture answers is settled by the race.
\<close>

theorem cache_serves_repeated_calls:
  "(enableCache m \<and> canExecuteToolCall m \<and> lookupMock js m tc1 = Inr None \<and>
    winner ev1 = ExecutorResolves \<and> executeToolCall js m tc1 ev1 = Inr (r1, m1) \<and>
    canExecuteToolCall m1 \<and>
    ToolCallData.toolName tc2 = ToolCallData.toolName tc1 \<and>
    stringify js (parameters tc2) = stringify js (parameters tc1) \<longrightarrow>
      (\<exists>k c. getCacheKey js tc1 = Inr k \<and> resultCache m1 k = Some c \<and>
           (r1 = c \<or> r1 = c\<lparr>executionTime := elapsed ev1, timestamp := isoNow ev1\<rparr>) \<and>
           (\<forall>ev2. executeToolCall js m1 tc2 ev2 =
                    Inr (c, m1\<lparr>callCount := callCount m1 + 1\<rparr>)))) \<and>
   (\<forall>r m'. executeToolCall js m tc1 ev1 = Inr (r, m') \<longrightarrow>
      (\<not> success r \<longrightarrow> resultCache m' = resultCache m) \<and>
      (resultCache m' = resultCache m \<or>
       (\<exists>k c. getCacheKey js tc1 = Inr k \<and> success c \<and>
              resultCache m' = (resultCache m)(k \<mapsto> c)))) \<and>
   (\<not> enableCache m \<and> canExecuteToolCall m \<and> lookupMock js m tc1 = Inr None \<longrightarrow>
      executeToolCall js m tc1 ev1 =
        (case promiseRace js (winner ev1) tc1 (effectiveTimeout m tc1) of
           Inr r \<Rightarrow> Inr (r\<lparr>executionTime := elapsed ev1, timestamp := isoNow ev1\<rparr>,
                        m\<lparr>callCount := callCount m + 1\<rparr>)
         | Inl e \<Rightarrow> Inr (failureResult tc1 e ev1, m\<lparr>callCount := callCount m + 1\<rparr>)))"
proof -
  have a: "\<exists>k c. getCacheKey js tc1 = Inr k \<and> resultCache m1 k = Some c \<and>
           (r1 = c \<or> r1 = c\<lparr>executionTime := elapsed ev1, timestamp := isoNow ev1\<rparr>) \<and>
           (\<forall>ev2. executeToolCall js m1 tc2 ev2 =
                    Inr (c, m1\<lparr>callCount := callCount m1 + 1\<rparr>))"
    if h: "enableCache m" "canExecuteToolCall m" "lookupMock js m tc1 = Inr None"
      "winner ev1 = ExecutorResolves" "executeToolCall js m tc1 ev1 = Inr (r1, m1)"
      "canExecuteToolCall m1" "ToolCallData.toolName tc2 = ToolCallData.toolName tc1"
      "stringify js (parameters tc2) = stringify js (parameters tc1)"
  proof -
    from executeToolCall_first_call [OF h(1-5)] obtain k c where
      c: "getCacheKey js tc1 = Inr k" "resultCache m1 k = Some c"
        "r1 = c \<or> r1 = c\<lparr>executionTime := elapsed ev1, timestamp := isoNow ev1\<rparr>"
        "enableCache m1" "mockResults m1 = mockResults m"
      by blast
    have k: "getCacheKey js tc2 = getCacheKey js tc1"
      using h(7,8) by (rule getCacheKey_cong)
    from c(1,5) h(3) k have nm: "lookupMock js m1 tc2 = Inr None"
      by (simp add: lookupMock_def split: option.splits)
    from c(1,2,4) k have hit: "lookupCache js m1 tc2 = Inr (Some c)"
      by (simp add: lookupCache_def)
    from executeToolCall_cached [OF h(6) nm hit] c show ?thesis by blast
  qed
  have b: "\<forall>r m'. executeToolCall js m tc1 ev1 = Inr (r, m') \<longrightarrow>
      (\<not> success r \<longrightarrow> resultCache m' = resultCache m) \<and>
      (resultCache m' = resultCache m \<or>
       (\<exists>k c. getCacheKey js tc1 = Inr k \<and> success c \<and>
              resultCache m' = (resultCache m)(k \<mapsto> c)))"
    using executeToolCall_failed_not_cached by blast
  have c: "\<not> enableCache m \<and> canExecuteToolCall m \<and> lookupMock js m tc1 = Inr None \<longrightarrow>
      executeToolCall js m tc1 ev1 =
        (case promiseRace js (winner ev1) tc1 (effectiveTimeout m tc1) of
           Inr r \<Rightarrow> Inr (r\<lparr>executionTime := elapsed ev1, timestamp := isoNow ev1\<rparr>,
                        m\<lparr>callCount := callCount m + 1\<rparr>)
         | Inl e \<Rightarrow> Inr (failureResult tc1 e ev1, m\<lparr>callCount := callCount m + 1\<rparr>))"
    by (auto simp: executeToolCall_run lookupCache_disabled split: sum.splits)
  from a b c show ?thesis by blast
qed

theorem cache_serves_repeated_calls_witness:
  "enableCache exampleManager \<and> canExecuteToolCall exampleManager \<and>
   executeToolCall exampleHost exampleManager (exampleToolCall None) (exampleEnv ExecutorResolves) =
     Inr ((simulateToolExecution (exampleToolCall None))
            \<lparr>executionTime := 12, timestamp := ''2024-01-01T00:00:00.000Z''\<rparr>,
          exampleManager
            \<lparr>callCount := 1,
             resultCache := [''fetch:{}'' \<mapsto> simulateToolExecution (exampleToolCall None)]\<rparr>) \<and>
   executeToolCall exampleHost
     (exampleManager
        \<lparr>callCount := 1,
         resultCache := [''fetch:{}'' \<mapsto> simulateToolExecution (exampleToolCall None)]\<rparr>)
     (exampleToolCall (Some 5)) (exampleEnv TimeoutRejects) =
     Inr (simulateToolExecution (exampleToolCall None),
          exampleManager
            \<lparr>callCount := 2,
             resultCache := [''fetch:{}'' \<mapsto> simulateToolExecution (exampleToolCall None)]\<rparr>) \<and>
   executeToolCall exampleHost (exampleManager\<lparr>enableCache := False\<rparr>) (exampleToolCall None)
     (exampleEnv ExecutorResolves) =
     Inr ((simulateToolExecution (exampleToolCall None))
            \<lparr>executionTime := 12, timestamp := ''2024-01-01T00:00:00.000Z''\<rparr>,
          exampleManager\<lparr>enableCache := False, callCount := 1\<rparr>)"
proof -
  let ?m1 = "exampleManager
        \<lparr>callCount := 1,
         resultCache := [''fetch:{}'' \<mapsto> simulateToolExecution (exampleToolCall None)]\<rparr>"
  let ?r1 = "(simulateToolExecution (exampleToolCall None))
            \<lparr>executionTime := 12, timestamp := ''2024-01-01T00:00:00.000Z''\<rparr>"
  have h1: "enableCache exampleManager" "canExecuteToolCall exampleManager"
    "lookupMock exampleHost exampleManager (exampleToolCall None) = Inr None"
    by (simp_all add: exampleManager_def new_ToolCallManager_def canExecuteToolCall_def
        lookupMock_def)
  have h2: "winner (exampleEnv ExecutorResolves) = ExecutorResolves"
    by (simp add: exampleEnv_def)
  have h3: "canExecuteToolCall ?m1"
    by (simp add: exampleManager_def new_ToolCallManager_def canExecuteToolCall_def)
  have h4: "ToolCallData.toolName (exampleToolCall (Some 5)) =
              ToolCallData.toolName (exampleToolCall None)"
    "stringify exampleHost (parameters (exampleToolCall (Some 5))) =
       stringify exampleHost (parameters (exampleToolCall None))"
    by (simp_all add: exampleToolCall_def)
  have k: "getCacheKey exampleHost (exampleToolCall None) = Inr ''fetch:{}''"
    by (simp add: getCacheKey_def exampleToolCall_def exampleHost_def)
  from cache_serves_repeated_calls [of exampleManager exampleHost "exampleToolCall None"
      "exampleEnv ExecutorResolves" ?r1 ?m1 "exampleToolCall (Some 5)"]
    h1 h2 h3 h4 exampleManager_first_call
  obtain k' c where c: "getCacheKey exampleHost (exampleToolCall None) = Inr k'"
    "resultCache ?m1 k' = Some c"
    "\<forall>ev2. executeToolCall exampleHost ?m1 (exampleToolCall (Some 5)) ev2 =
            Inr (c, ?m1\<lparr>callCount := callCount ?m1 + 1\<rparr>)"
    by blast
  from c(1,2) k have "c = simulateToolExecution (exampleToolCall None)" by simp
  with c(3) have a: "executeToolCall exampleHost ?m1 (exampleToolCall (Some 5))
       (exampleEnv TimeoutRejects) =
     Inr (simulateToolExecution (exampleToolCall None),
          exampleManager
            \<lparr>callCount := 2,
             resultCache := [''fetch:{}'' \<mapsto> simulateToolExecution (exampleToolCall None)]\<rparr>)"
    by simp
  have h5: "\<not> enableCache (exampleManager\<lparr>enableCache := False\<rparr>)"
    "canExecuteToolCall (exampleManager\<lparr>enableCache := False\<rparr>)"
    "lookupMock exampleHost (exampleManager\<lparr>enableCache := False\<rparr>) (exampleToolCall None) =
       Inr None"
    by (simp_all add: exampleManager_def new_ToolCallManager_def canExecuteToolCall_def
        lookupMock_def)
  from cache_serves_repeated_calls [of "exampleManager\<lparr>enableCache := False\<rparr>" exampleHost
      "exampleToolCall None" "exampleEnv ExecutorResolves"] h5
  have b: "executeToolCall exampleHost (exampleManager\<lparr>enableCache := False\<rparr>)
     (exampleToolCall None) (exampleEnv ExecutorResolves) =
     Inr ((simulateToolExecution (exampleToolCall None))
            \<lparr>executionTime := 12, timestamp := ''2024-01-01T00:00:00.000Z''\<rparr>,
          exampleManager\<lparr>enableCache := False, callCount := 1\<rparr>)"
    by (simp add: promiseRace_def exampleEnv_def exampleManager_def new_ToolCallManager_def)
  from h1 exampleManager_first_call a b show ?thesis by blast
qed

section \<open>Reset\<close>

text \<open>
  Claim C9: \<open>reset\<close> sets the call counter to 0, empties the cache and replaces the
  state manager by a new one; the fixtures and the configuration stay. So when
  fixtures were injected, any steps were processed, the server was reset and any
  further steps were processed, a call whose key has a fixture returns that fixture
  as it is, provided the budget admits the call (right after \<open>reset\<close> that is the
  case when \<open>maxToolCalls\<close> is positive).
\<close>

theorem reset_keeps_mocks:
  "callCount (toolCallManager (reset srv)) = 0 \<and>
   resultCache (toolCallManager (reset srv)) = Map.empty \<and>
   stateManager (reset srv) = new_StateManager \<and>
   StepHistory.steps (getHistory (reset srv)) = [] \<and>
   mockResults (toolCallManager (reset srv)) = mockResults (toolCallManager srv) \<and>
   maxToolCalls (toolCallManager (reset srv)) = maxToolCalls (toolCallManager srv) \<and>
   defaultTimeout (toolCallManager (reset srv)) = defaultTimeout (toolCallManager srv) \<and>
   enableCache (toolCallManager (reset srv)) = enableCache (toolCallManager srv) \<and>
   canExecuteToolCall (toolCallManager (reset srv)) = (0 < maxToolCalls (toolCallManager srv)) \<and>
   (getCacheKey js tc = Inr k \<and> mocks k = Some fixture \<and>
    canExecuteToolCall (toolCallManager
      (snd (processSteps js
         (reset (snd (processSteps js (injectMockResults srv0 mocks) xs))) ys))) \<longrightarrow>
      executeToolCall js
        (toolCallManager
          (snd (processSteps js
             (reset (snd (processSteps js (injectMockResults srv0 mocks) xs))) ys)))
        tc ev =
      Inr (fixture,
           (toolCallManager
             (snd (processSteps js
                (reset (snd (processSteps js (injectMockResults srv0 mocks) xs))) ys)))
             \<lparr>callCount :=
                callCount (toolCallManager
                  (snd (processSteps js
                     (reset (snd (processSteps js (injectMockResults srv0 mocks) xs))) ys)))
                + 1\<rparr>))"
proof -
  let ?before = "snd (processSteps js (injectMockResults srv0 mocks) xs)"
  let ?after = "snd (processSteps js (reset ?before) ys)"
  have a: "callCount (toolCallManager (reset srv)) = 0 \<and>
   resultCache (toolCallManager (reset srv)) = Map.empty \<and>
   stateManager (reset srv) = new_StateManager \<and>
   StepHistory.steps (getHistory (reset srv)) = [] \<and>
   mockResults (toolCallManager (reset srv)) = mockResults (toolCallManager srv) \<and>
   maxToolCalls (toolCallManager (reset srv)) = maxToolCalls (toolCallManager srv) \<and>
   defaultTimeout (toolCallManager (reset srv)) = defaultTimeout (toolCallManager srv) \<and>
   enableCache (toolCallManager (reset srv)) = enableCache (toolCallManager srv) \<and>
   canExecuteToolCall (toolCallManager (reset srv)) = (0 < maxToolCalls (toolCallManager srv))"
    by (simp add: reset_def ToolCallManager_reset_def getHistory_def StateManager_getHistory_def
        new_StateManager_def canExecuteToolCall_def)
  have b: "executeToolCall js (toolCallManager ?after) tc ev =
      Inr (fixture, (toolCallManager ?after)\<lparr>callCount := callCount (toolCallManager ?after) + 1\<rparr>)"
    if h: "getCacheKey js tc = Inr k" "mocks k = Some fixture"
      "canExecuteToolCall (toolCallManager ?after)"
  proof -
    from processSteps_manager_frame [of js "injectMockResults srv0 mocks" xs]
    have "mockResults (toolCallManager ?before) = Some mocks"
      by (simp add: injectMockResults_def ToolCallManager_injectMockResults_def)
    with processSteps_manager_frame [of js "reset ?before" ys]
    have "mockResults (toolCallManager ?after) = Some mocks"
      by (simp add: reset_def ToolCallManager_reset_def)
    with h(1,2) have "lookupMock js (toolCallManager ?after) tc = Inr (Some fixture)"
      by (simp add: lookupMock_def)
    from executeToolCall_mock [OF h(3) this] show ?thesis .
  qed
  from a b show ?thesis by blast
qed

theorem reset_keeps_mocks_witness:
  "getCacheKey exampleHost (exampleToolCall None) = Inr ''fetch:{}'' \<and>
   [''fetch:{}'' \<mapsto> exampleFixture] ''fetch:{}'' = Some exampleFixture \<and>
   canExecuteToolCall (toolCallManager (snd (processSteps exampleHost
      (reset (snd (processSteps exampleHost
         (injectMockResults exampleServer [''fetch:{}'' \<mapsto> exampleFixture])
         [(exampleStep (Num 2) (Num 3) None (Some (exampleToolCall None)),
           exampleEnv ExecutorResolves)]))) []))) \<and>
   executeToolCall exampleHost
     (toolCallManager (snd (processSteps exampleHost
        (reset (snd (processSteps exampleHost
           (injectMockResults exampleServer [''fetch:{}'' \<mapsto> exampleFixture])
           [(exampleStep (Num 2) (Num 3) None (Some (exampleToolCall None)),
             exampleEnv ExecutorResolves)]))) [])))
     (exampleToolCall None) (exampleEnv TimeoutRejects) =
   Inr (exampleFixture,
        \<lparr>maxToolCalls = 1, defaultTimeout = 30000, enableCache = True, callCount = 1,
         resultCache = Map.empty,
         mockResults = Some [''fetch:{}'' \<mapsto> exampleFixture]\<rparr>)"
proof -
  let ?after = "snd (processSteps exampleHost
        (reset (snd (processSteps exampleHost
           (injectMockResults exampleServer [''fetch:{}'' \<mapsto> exampleFixture])
           [(exampleStep (Num 2) (Num 3) None (Some (exampleToolCall None)),
             exampleEnv ExecutorResolves)]))) [])"
  have m: "toolCallManager ?after =
        \<lparr>maxToolCalls = 1, defaultTimeout = 30000, enableCache = True, callCount = 0,
         resultCache = Map.empty,
         mockResults = Some [''fetch:{}'' \<mapsto> exampleFixture]\<rparr>"
    by (simp add: reset_def ToolCallManager_reset_def injectMockResults_def
        ToolCallManager_injectMockResults_def example_defs)
  have h0: "getCacheKey exampleHost (exampleToolCall None) = Inr ''fetch:{}''"
    by (simp add: getCacheKey_def exampleToolCall_def exampleHost_def)
  have h1: "[''fetch:{}'' \<mapsto> exampleFixture] ''fetch:{}'' = Some exampleFixture"
    by simp
  have h2: "canExecuteToolCall (toolCallManager ?after)"
    unfolding m by (simp add: canExecuteToolCall_def)
  from reset_keeps_mocks [of exampleServer exampleHost "exampleToolCall None" "''fetch:{}''"
      "[''fetch:{}'' \<mapsto> exampleFixture]" exampleFixture exampleServer
      "[(exampleStep (Num 2) (Num 3) None (Some (exampleToolCall None)),
             exampleEnv ExecutorResolves)]" "[]" "exampleEnv TimeoutRejects"] h0 h1 h2
  have e: "executeToolCall exampleHost (toolCallManager ?after) (exampleToolCall None)
          (exampleEnv TimeoutRejects) =
        Inr (exampleFixture,
             (toolCallManager ?after)\<lparr>callCount := callCount (toolCallManager ?after) + 1\<rparr>)"
    by blast
  show ?thesis using h0 h1 h2 e unfolding m by simp
qed

section \<open>What the cache holds\<close>

lemma reachable_cache_raw:
  assumes "reachable js srv"
  shows "resultCache (toolCallManager srv) k = Some c \<Longrightarrow> \<exists>tc. c = simulateToolExecution tc"
  using assms
proof (induction arbitrary: k c rule: reachable.induct)
  case (reachable_new config)
  then show ?case
    by (simp add: new_InterleavedThinkingServer_def new_ToolCallManager_def)
next
  case (reachable_step srv input ev)
  from processStep_manager [of js srv input ev]
  consider "toolCallManager (snd (processStep js srv input ev)) = toolCallManager srv"
    | tc r where "executeToolCall js (toolCallManager srv) tc ev =
              Inr (r, toolCallManager (snd (processStep js srv input ev)))"
    | tc e where "executeToolCall js (toolCallManager srv) tc ev =
              Inl (e, toolCallManager (snd (processStep js srv input ev)))"
    by blast
  then show ?case
  proof cases
    case 1
    with reachable_step show ?thesis by simp
  next
    case 2
    from executeToolCall_cache [OF this] reachable_step show ?thesis
      by (auto split: if_splits)
  next
    case 3
    from executeToolCall_frame_Inl [OF this] reachable_step show ?thesis by simp
  qed
next
  case (reachable_reset srv)
  then show ?case by (simp add: reset_def ToolCallManager_reset_def)
next
  case (reachable_inject srv mocks)
  then show ?case
    by (simp add: injectMockResults_def ToolCallManager_injectMockResults_def)
qed

text \<open>
  Claim C10: in every server that can be reached, each object in the cache is a raw
  result of the executor, with \<open>executionTime = 0\<close> and an empty \<open>timestamp\<close>. A call
  that is answered from the cache returns that object, so it carries these two
  values; the call that executed returned the same result stamped with the elapsed
  time and the time of completion, and stored the raw one.
\<close>

theorem cache_holds_raw_results:
  assumes "reachable js srv"
  shows "(\<forall>k c. resultCache (toolCallManager srv) k = Some c \<longrightarrow>
            (\<exists>tc. c = simulateToolExecution tc) \<and> executionTime c = 0 \<and> timestamp c = '''') \<and>
         (\<forall>tc ev c. canExecuteToolCall (toolCallManager srv) \<and>
            lookupMock js (toolCallManager srv) tc = Inr None \<and>
            lookupCache js (toolCallManager srv) tc = Inr (Some c) \<longrightarrow>
            executeToolCall js (toolCallManager srv) tc ev =
              Inr (c, (toolCallManager srv)\<lparr>callCount := callCount (toolCallManager srv) + 1\<rparr>) \<and>
            executionTime c = 0 \<and> timestamp c = '''') \<and>
         (\<forall>tc ev. canExecuteToolCall (toolCallManager srv) \<and>
            lookupMock js (toolCallManager srv) tc = Inr None \<and>
            lookupCache js (toolCallManager srv) tc = Inr None \<and>
            winner ev = ExecutorResolves \<longrightarrow>
            (\<exists>m'. executeToolCall js (toolCallManager srv) tc ev =
                     Inr ((simulateToolExecution tc)
                            \<lparr>executionTime := elapsed ev, timestamp := isoNow ev\<rparr>, m') \<and>
                   (enableCache (toolCallManager srv) \<longrightarrow>
                      (\<exists>k. getCacheKey js tc = Inr k \<and>
                           resultCache m' k = Some (simulateToolExecution tc)))))"
proof -
  have a: "(\<exists>tc. c = simulateToolExecution tc) \<and> executionTime c = 0 \<and> timestamp c = ''''"
    if "resultCache (toolCallManager srv) k = Some c" for k c
    using reachable_cache_raw [OF assms that] by auto
  have b: "executeToolCall js (toolCallManager srv) tc ev =
              Inr (c, (toolCallManager srv)\<lparr>callCount := callCount (toolCallManager srv) + 1\<rparr>) \<and>
            executionTime c = 0 \<and> timestamp c = ''''"
    if h: "canExecuteToolCall (toolCallManager srv)"
      "lookupMock js (toolCallManager srv) tc = Inr None"
      "lookupCache js (toolCallManager srv) tc = Inr (Some c)" for tc ev c
  proof -
    from h(3) obtain k where "resultCache (toolCallManager srv) k = Some c"
      by (auto simp: lookupCache_def split: if_splits sum.splits)
    from a [OF this] executeToolCall_cached [OF h] show ?thesis by simp
  qed
  have c: "\<exists>m'. executeToolCall js (toolCallManager srv) tc ev =
                     Inr ((simulateToolExecution tc)
                            \<lparr>executionTime := elapsed ev, timestamp := isoNow ev\<rparr>, m') \<and>
                   (enableCache (toolCallManager srv) \<longrightarrow>
                      (\<exists>k. getCacheKey js tc = Inr k \<and>
                           resultCache m' k = Some (simulateToolExecution tc)))"
    if h: "canExecuteToolCall (toolCallManager srv)"
      "lookupMock js (toolCallManager srv) tc = Inr None"
      "lookupCache js (toolCallManager srv) tc = Inr None"
      "winner ev = ExecutorResolves" for tc ev
  proof (cases "enableCache (toolCallManager srv)")
    case True
    from lookupCache_key [OF True h(3)] obtain k where "getCacheKey js tc = Inr k"
      by blast
    with h True show ?thesis
      by (simp add: executeToolCall_run promiseRace_def)
  next
    case False
    with h show ?thesis
      by (simp add: executeToolCall_run promiseRace_def)
  qed
  from a b c show ?thesis by blast
qed

theorem cache_holds_raw_results_witness:
  "reachable exampleHost defaultServerAfterCall \<and>
   fst (processStep exampleHost defaultServer
          (exampleStep (Num 2) (Num 3) None (Some (exampleToolCall None)))
          (exampleEnv ExecutorResolves)) =
     \<lparr>content = Response
        \<lparr>StepResponse.stepNumber = Num 2, StepResponse.totalSteps = Num 3,
         StepResponse.nextStepNeeded = Some True, StepResponse.branches = {},
         stepHistoryLength = 1, StepResponse.phase = Some ''tool_call'',
         StepResponse.toolResult =
           Some \<lparr>ToolResultSummary.success = True, ToolResultSummary.executionTime = 12\<rparr>\<rparr>,
      isError = None\<rparr> \<and>
   executeToolCall exampleHost (toolCallManager defaultServerAfterCall) (exampleToolCall (Some 5))
       (exampleEnv TimeoutRejects) =
     Inr (\<lparr>toolName = ''fetch'', success = True,
           result = Some (''Mock result for fetch'', JsonText ''{}''), error = None,
           executionTime = 0, timestamp = ''''\<rparr>,
          (toolCallManager defaultServerAfterCall)\<lparr>callCount := 2\<rparr>)"
proof -
  have r: "reachable exampleHost defaultServerAfterCall"
    unfolding defaultServerAfterCall_def defaultServer_def
    by (intro reachable_step reachable_new)
  have f: "fst (processStep exampleHost defaultServer
          (exampleStep (Num 2) (Num 3) None (Some (exampleToolCall None)))
          (exampleEnv ExecutorResolves)) =
     \<lparr>content = Response
        \<lparr>StepResponse.stepNumber = Num 2, StepResponse.totalSteps = Num 3,
         StepResponse.nextStepNeeded = Some True, StepResponse.branches = {},
         stepHistoryLength = 1, StepResponse.phase = Some ''tool_call'',
         StepResponse.toolResult =
           Some \<lparr>ToolResultSummary.success = True, ToolResultSummary.executionTime = 12\<rparr>\<rparr>,
      isError = None\<rparr>"
    by (simp add: defaultServer_def example_defs)
  have h: "canExecuteToolCall (toolCallManager defaultServerAfterCall)"
    "lookupMock exampleHost (toolCallManager defaultServerAfterCall) (exampleToolCall (Some 5)) =
       Inr None"
    "lookupCache exampleHost (toolCallManager defaultServerAfterCall) (exampleToolCall (Some 5)) =
       Inr (Some (simulateToolExecution (exampleToolCall None)))"
    by (simp_all add: defaultServerAfterCall_manager canExecuteToolCall_def lookupMock_def
        lookupCache_def getCacheKey_def exampleToolCall_def exampleHost_def)
  from cache_holds_raw_results [OF r] h
  have "executeToolCall exampleHost (toolCallManager defaultServerAfterCall)
       (exampleToolCall (Some 5)) (exampleEnv TimeoutRejects) =
     Inr (simulateToolExecution (exampleToolCall None),
          (toolCallManager defaultServerAfterCall)
            \<lparr>callCount := callCount (toolCallManager defaultServerAfterCall) + 1\<rparr>)"
    by blast
  then have e: "executeToolCall exampleHost (toolCallManager defaultServerAfterCall)
       (exampleToolCall (Some 5)) (exampleEnv TimeoutRejects) =
     Inr (\<lparr>toolName = ''fetch'', success = True,
           result = Some (''Mock result for fetch'', JsonText ''{}''), error = None,
           executionTime = 0, timestamp = ''''\<rparr>,
          (toolCallManager defaultServerAfterCall)\<lparr>callCount := 2\<rparr>)"
    by (simp add: defaultServerAfterCall_manager simulateToolExecution_def exampleToolCall_def)
  from r f e show ?thesis by blast
qed

end
